theory Spec2Isabelle
  imports Main "HOL-Library.Multiset"
begin

section \<open>Catalog data (common/types.ts)\<close>

text \<open>
  \<^verbatim>\<open>export const enum AnnounceType { DefaultAnnounce, DefaultSilent, AlwaysAnnounce, AlwaysSilent }\<close>
  A const enum without initialisers: at run time its members are the numbers 0, 1, 2, 3.
\<close>

datatype AnnounceType = DefaultAnnounce | DefaultSilent | AlwaysAnnounce | AlwaysSilent

fun AnnounceType_value :: "AnnounceType \<Rightarrow> nat" where
  "AnnounceType_value DefaultAnnounce = 0"
| "AnnounceType_value DefaultSilent = 1"
| "AnnounceType_value AlwaysAnnounce = 2"
| "AnnounceType_value AlwaysSilent = 3"

text \<open>
  The catalog item \<^verbatim>\<open>Redeem\<close> and the \<^verbatim>\<open>Cart\<close>. Both types have fields
  \<^verbatim>\<open>id\<close>, \<^verbatim>\<open>sku\<close>, \<^verbatim>\<open>args\<close> and \<^verbatim>\<open>announce\<close>, so every field carries its
  type's name as a prefix. An optional field \<^verbatim>\<open>f?: T\<close> is a \<open>T option\<close>.
  \<^verbatim>\<open>Redeem.args\<close> (the parameter schema) is never read by the connection and is left out;
  the values of \<^verbatim>\<open>Cart.args\<close> are taken to be strings.
\<close>

record Redeem =
  Redeem_id :: string
  Redeem_title :: string
  Redeem_description :: string
  Redeem_announce :: "AnnounceType option"
  Redeem_moderated :: "bool option"
  Redeem_image :: string
  Redeem_price :: int
  Redeem_sku :: string
  Redeem_disabled :: "bool option"
  Redeem_hidden :: "bool option"

record Cart =
  Cart_version :: int
  Cart_id :: string
  Cart_sku :: string
  Cart_args :: "(string \<times> string) list"
  Cart_announce :: bool

section \<open>Protocol messages\<close>

text \<open>
  Modelled from the spec: the modules \<^verbatim>\<open>./messages\<close>, \<^verbatim>\<open>./messages.game\<close> and
  \<^verbatim>\<open>./messages.server\<close> (\<^verbatim>\<open>MessageType\<close>, \<^verbatim>\<open>Message\<close>, \<^verbatim>\<open>TwitchUser\<close>,
  \<^verbatim>\<open>GameMessage\<close>, \<^verbatim>\<open>ResultMessage\<close>, \<^verbatim>\<open>ServerMessage\<close>, \<^verbatim>\<open>RedeemMessage\<close>,
  \<^verbatim>\<open>CommandInvocationSource\<close>) are not among the sources. The spec's data model gives the
  base message \<^verbatim>\<open>{messageType, guid, timestamp}\<close>, the inbound variants
  \<^verbatim>\<open>Hello{version}\<close>, \<^verbatim>\<open>Ping{}\<close>, \<^verbatim>\<open>Result{guid, success, payload}\<close>,
  \<^verbatim>\<open>IngameStateChanged{ingame}\<close> and the outbound variants \<^verbatim>\<open>HelloBack{allowed}\<close>,
  \<^verbatim>\<open>Pong{}\<close>, \<^verbatim>\<open>Redeem{guid, source, command, title, announce, args, user}\<close>.
\<close>

datatype MessageType = Hello | Ping | Result | IngameStateChanged | HelloBack | Pong | Redeem

record Message =
  messageType :: MessageType
  guid :: string
  timestamp :: nat

datatype TwitchUser = TwitchUser (userId: string)

datatype CommandInvocationSource = Swarm

text \<open>
  The outbound \<^verbatim>\<open>announce\<close> field: the source writes \<^verbatim>\<open>redeem.announce ?? true\<close>, so the
  field holds either the number of an \<^verbatim>\<open>AnnounceType\<close> or the boolean \<^verbatim>\<open>true\<close>.
  \<open>falsy\<close> is JavaScript's truthiness on these two kinds of value.
\<close>

datatype JSValue = JSBoolean bool | JSNumber nat

fun falsy :: "JSValue \<Rightarrow> bool" where
  "falsy (JSBoolean b) = (\<not> b)"
| "falsy (JSNumber n) = (n = 0)"

fun isBoolean :: "JSValue \<Rightarrow> bool" where
  "isBoolean (JSBoolean b) = True"
| "isBoolean (JSNumber n) = False"

text \<open>
  Inbound messages are a discriminated union: the \<^verbatim>\<open>switch (msg.messageType)\<close> of
  \<^verbatim>\<open>processMessage\<close> is a match on the constructor. \<open>UnknownMessage\<close> stands for every
  message whose type the switch sends to \<^verbatim>\<open>default\<close>; it carries the raw type number.
\<close>

datatype GameMessage =
    HelloMessage string nat string
  | PingMessage string nat
  | ResultMessage string nat bool string
  | IngameStateChangedMessage string nat bool
  | UnknownMessage nat string nat

text \<open>
  Outbound messages are built by spreading the result of \<^verbatim>\<open>makeMessage\<close> into an
  object literal, and \<^verbatim>\<open>sendMessage\<close> reads \<^verbatim>\<open>msg.messageType\<close>: each constructor
  carries the base message.
\<close>

datatype ServerMessage =
    HelloBackMessage (base: Message) (allowed: bool)
  | PongMessage (base: Message)
  | RedeemMessage (base: Message) (source: CommandInvocationSource) (command: string)
      (title: string) (announce: JSValue) (args: "(string \<times> string) list") (user: TwitchUser)

section \<open>Promises, sockets and the state of the connection\<close>

text \<open>
  A promise is pending or settled; the reason of a rejection is a string, or the
  \<^verbatim>\<open>Error\<close> object the transport passed to the callback of \<^verbatim>\<open>send\<close>.
\<close>

datatype JSError = JSError (name: string) (message: string)

datatype Reason = Text string | Thrown JSError

datatype 'a PromiseState = Pending | Fulfilled 'a | Rejected Reason

text \<open>A settled promise stays as it is: settling it again is a no-op.\<close>

fun settle :: "'a PromiseState \<Rightarrow> 'a PromiseState \<Rightarrow> 'a PromiseState" where
  "settle Pending outcome = outcome"
| "settle (Fulfilled v) outcome = Fulfilled v"
| "settle (Rejected e) outcome = Rejected e"

text \<open>
  One call of \<^verbatim>\<open>redeem\<close> creates the promise whose \<^verbatim>\<open>resolve\<close> is stored in
  \<^verbatim>\<open>resultHandlers\<close> (\<open>handlerPromise\<close>) and returns \<^verbatim>\<open>Promise.race\<close> of the timeout
  promise and that promise (\<open>racePromise\<close>, what the caller awaits).
\<close>

record RedeemCall =
  handlerPromise :: "GameMessage PromiseState"
  racePromise :: "GameMessage PromiseState"

text \<open>
  The \<^verbatim>\<open>ws\<close> socket, as far as the connection uses it: its \<^verbatim>\<open>readyState\<close>, what the
  transport answers to a write (\<open>sendFault\<close>: the error passed to the callback of
  \<^verbatim>\<open>send\<close>, if any) and the messages it has accepted, in order (\<open>delivered\<close>).
\<close>

datatype ReadyState = CONNECTING | OPEN | CLOSING | CLOSED

record WebSocket =
  readyState :: ReadyState
  sendFault :: "JSError option"
  delivered :: "ServerMessage list"

text \<open>
  The state: the fields of \<^verbatim>\<open>GameConnection\<close> first, then the environment it acts on.
  Sockets and calls live in stores indexed by numbers; \<open>socket\<close> holds a reference.
  A \<^verbatim>\<open>ResultHandler\<close> is the \<^verbatim>\<open>resolve\<close> function of a call: \<open>resultHandlers\<close> maps a
  guid to the number of that call. \<open>ingameCalls\<close> lists the arguments \<^verbatim>\<open>setIngame\<close> of
  \<^verbatim>\<open>../config\<close> was called with. \<open>intervals\<close> maps the handle of every running
  \<^verbatim>\<open>setInterval\<close> timer to its period, \<open>redeemTimeouts\<close> maps a call to the time its
  \<^verbatim>\<open>setTimeout\<close> is due. \<open>now\<close> is \<^verbatim>\<open>Date.now()\<close>, \<open>uuids\<close> the values
  \<^verbatim>\<open>uuid()\<close> returns, \<open>uuidCount\<close> how many were drawn. \<open>listeners\<close> counts, for
  every socket, how often \<^verbatim>\<open>setSocket\<close> has registered its handlers on it
  (\<^verbatim>\<open>ws.on('message')\<close>, \<^verbatim>\<open>ws.on("close")\<close>, \<^verbatim>\<open>ws.on("error")\<close>): no handler is
  ever removed, so an event of the socket runs the handler that many times. Console output
  is not modelled.
\<close>

record State =
  handshake :: bool
  socket :: "nat option"
  unsentQueue :: "ServerMessage list"
  outstandingRedeems :: "string \<rightharpoonup> ServerMessage"
  resultHandlers :: "string \<rightharpoonup> nat"
  resendIntervalHandle :: "nat option"
  sockets :: "nat \<Rightarrow> WebSocket"
  listeners :: "nat \<Rightarrow> nat"
  ingameCalls :: "bool list"
  intervals :: "nat \<rightharpoonup> nat"
  timerCount :: nat
  redeemTimeouts :: "nat \<rightharpoonup> nat"
  calls :: "nat \<Rightarrow> RedeemCall"
  nextCall :: nat
  now :: nat
  uuids :: "nat \<Rightarrow> string"
  uuidCount :: nat

definition VERSION :: string where
  "VERSION = ''0.1.0''"

definition resultWaitTimeout :: nat where
  "resultWaitTimeout = 10000"

definition resendInterval :: nat where
  "resendInterval = 500"

text \<open>The texts of the rejections, under the names the spec gives the error kinds.\<close>

definition NotConnected :: Reason where
  "NotConnected = Text ''Tried to send message without a connected socket''"

definition HandshakeIncomplete :: Reason where
  "HandshakeIncomplete = Text ''Tried to send message before handshake was complete''"

definition MissingTransactionId :: Reason where
  "MissingTransactionId = Text ''Tried to redeem without transaction ID''"

definition DuplicateRedeem :: "string \<Rightarrow> Reason" where
  "DuplicateRedeem g = Text (''Redeeming '' @ g @ '' more than once'')"

definition Timeout :: Reason where
  "Timeout = Text (''Timed out waiting for result. The redeem may still go through later, ''
     @ ''contact Alexejhero if it doesn'' @ [CHR 0x27] @ ''t.'')"

section \<open>The environment's primitives\<close>

definition setIngame :: "bool \<Rightarrow> State \<Rightarrow> State" where
  "setIngame b st = st\<lparr>ingameCalls := ingameCalls st @ [b]\<rparr>"

text \<open>
  \<^verbatim>\<open>+setInterval(f, period)\<close>: a new timer runs, and its handle is a number that was
  never a handle before; the runtime's handles start at 1.
\<close>

definition setInterval :: "nat \<Rightarrow> State \<Rightarrow> nat \<times> State" where
  "setInterval period st =
     (let h = Suc (timerCount st)
      in (h, st\<lparr>intervals := (intervals st)(h \<mapsto> period), timerCount := h\<rparr>))"

definition clearInterval :: "nat \<Rightarrow> State \<Rightarrow> State" where
  "clearInterval h st = st\<lparr>intervals := (intervals st)(h := None)\<rparr>"

definition uuid :: "State \<Rightarrow> string \<times> State" where
  "uuid st = (uuids st (uuidCount st), st\<lparr>uuidCount := Suc (uuidCount st)\<rparr>)"

text \<open>
  \<^verbatim>\<open>ws.close()\<close> on an open socket starts the closing handshake: the socket is
  \<^verbatim>\<open>CLOSING\<close> at once, and its \<^verbatim>\<open>close\<close> event comes later, as an event of its own.
\<close>

definition closeSocket :: "nat \<Rightarrow> State \<Rightarrow> State" where
  "closeSocket ws st =
     (if readyState (sockets st ws) = OPEN
      then st\<lparr>sockets := (sockets st)(ws := (sockets st ws)\<lparr>readyState := CLOSING\<rparr>)\<rparr>
      else st)"

text \<open>
  \<^verbatim>\<open>resolve\<close> and \<^verbatim>\<open>reject\<close> of the promise of call \<open>c\<close>: they settle that promise if
  it is pending, and with it the race, if nothing has settled the race before.
\<close>

definition settleHandlerPromise :: "nat \<Rightarrow> GameMessage PromiseState \<Rightarrow> State \<Rightarrow> State" where
  "settleHandlerPromise c outcome st =
     (case handlerPromise (calls st c) of
        Pending \<Rightarrow>
          st\<lparr>calls := (calls st)(c :=
               \<lparr>handlerPromise = outcome, racePromise = settle (racePromise (calls st c)) outcome\<rparr>)\<rparr>
      | Fulfilled v \<Rightarrow> st
      | Rejected e \<Rightarrow> st)"

definition resolve :: "nat \<Rightarrow> GameMessage \<Rightarrow> State \<Rightarrow> State" where
  "resolve c result st = settleHandlerPromise c (Fulfilled result) st"

definition reject :: "nat \<Rightarrow> Reason \<Rightarrow> State \<Rightarrow> State" where
  "reject c reason st = settleHandlerPromise c (Rejected reason) st"

section \<open>GameConnection\<close>

definition isConnected :: "State \<Rightarrow> bool" where
  "isConnected st =
     (case socket st of None \<Rightarrow> False | Some ws \<Rightarrow> readyState (sockets st ws) = OPEN)"

definition msgSendError :: "ServerMessage \<Rightarrow> State \<Rightarrow> State" where
  "msgSendError msg st = st\<lparr>unsentQueue := unsentQueue st @ [msg]\<rparr>"

text \<open>
  \<^verbatim>\<open>sendMessage\<close> returns a promise that is settled by the time the callback of
  \<^verbatim>\<open>send\<close> has run; the model runs that callback with the call, so the function
  returns the settled promise and the new state. \<^verbatim>\<open>this.socket!\<close> is \<open>the (socket st)\<close>:
  the first guard has established that there is a socket.
\<close>

definition sendMessage :: "ServerMessage \<Rightarrow> State \<Rightarrow> unit PromiseState \<times> State" where
  "sendMessage msg st =
     (if \<not> isConnected st then (Rejected NotConnected, msgSendError msg st)
      else if \<not> handshake st \<and> messageType (base msg) \<noteq> Pong
        then (Rejected HandshakeIncomplete, msgSendError msg st)
      else (let ws = the (socket st) in
        case sendFault (sockets st ws) of
          Some err \<Rightarrow> (Rejected (Thrown err), msgSendError msg st)
        | None \<Rightarrow>
            (Fulfilled (),
             st\<lparr>sockets := (sockets st)(ws :=
                  (sockets st ws)\<lparr>delivered := delivered (sockets st ws) @ [msg]\<rparr>)\<rparr>)))"

definition makeMessage :: "MessageType \<Rightarrow> string option \<Rightarrow> State \<Rightarrow> Message \<times> State" where
  "makeMessage type g st =
     (case g of
        Some g' \<Rightarrow> (\<lparr>messageType = type, guid = g', timestamp = now st\<rparr>, st)
      | None \<Rightarrow>
          (let (u, st') = uuid st
           in (\<lparr>messageType = type, guid = u, timestamp = now st'\<rparr>, st')))"

text \<open>
  \<^verbatim>\<open>setSocket\<close>. The handlers it registers on the socket are \<open>socketOnClose\<close> below
  and \<open>processMessage\<close> (for a payload that parses); the \<^verbatim>\<open>error\<close> handler only logs.
  Every call with a socket registers them once more on that socket.
\<close>

definition setSocket :: "nat option \<Rightarrow> State \<Rightarrow> State" where
  "setSocket ws st =
     (let st1 = (if isConnected st then closeSocket (the (socket st)) st else st);
          st2 = st1\<lparr>socket := ws\<rparr>
      in case ws of
           None \<Rightarrow> st2
         | Some w \<Rightarrow>
             (let st3 = st2\<lparr>handshake := False\<rparr>;
                  (h, st4) = setInterval resendInterval st3;
                  st5 = st4\<lparr>resendIntervalHandle := Some h\<rparr>
              in st5\<lparr>listeners := (listeners st5)(w := Suc (listeners st5 w))\<rparr>))"

text \<open>
  The handler of the socket's \<^verbatim>\<open>close\<close> event. \<^verbatim>\<open>if (this.resendIntervalHandle)\<close> is
  false for \<^verbatim>\<open>undefined\<close> and for 0.
\<close>

definition socketOnClose :: "State \<Rightarrow> State" where
  "socketOnClose st =
     (let st1 = setIngame False st
      in case resendIntervalHandle st1 of
           None \<Rightarrow> st1
         | Some h \<Rightarrow> if h \<noteq> 0 then clearInterval h st1 else st1)"

fun processMessage :: "GameMessage \<Rightarrow> State \<Rightarrow> State" where
  "processMessage (HelloMessage g t version) st =
     (let st1 = st\<lparr>handshake := True\<rparr>;
          (m, st2) = makeMessage HelloBack None st1;
          reply = HelloBackMessage m (version = VERSION)
      in snd (sendMessage reply st2))"
| "processMessage (PingMessage g t) st =
     (let (m, st1) = makeMessage Pong None st
      in snd (sendMessage (PongMessage m) st1))"
| "processMessage (ResultMessage g t success payload) st =
     (let st1 = (case resultHandlers st g of
                   None \<Rightarrow> st
                 | Some c \<Rightarrow> resolve c (ResultMessage g t success payload) st)
      in st1\<lparr>outstandingRedeems := (outstandingRedeems st1)(g := None),
             resultHandlers := (resultHandlers st1)(g := None)\<rparr>)"
| "processMessage (IngameStateChangedMessage g t ingame) st = setIngame ingame st"
| "processMessage (UnknownMessage ty g t) st = st"

text \<open>
  \<^verbatim>\<open>redeem\<close> returns the race promise: the number of the new call. The timer of the
  timeout promise is set first, then the executor of the second promise runs.
\<close>

definition redeem :: "Redeem \<Rightarrow> Cart \<Rightarrow> TwitchUser \<Rightarrow> string \<Rightarrow> State \<Rightarrow> nat \<times> State" where
  "redeem r cart usr transactionId st =
     (let c = nextCall st;
          st1 = st\<lparr>calls := (calls st)(c := \<lparr>handlerPromise = Pending, racePromise = Pending\<rparr>),
                   nextCall := Suc c,
                   redeemTimeouts := (redeemTimeouts st)(c \<mapsto> now st + resultWaitTimeout)\<rparr>
      in if transactionId = [] then (c, reject c MissingTransactionId st1)
         else
           (let (m, st2) = makeMessage Redeem None st1;
                msg = RedeemMessage (m\<lparr>guid := transactionId\<rparr>) Swarm (Redeem_id r)
                        (Redeem_title r)
                        (case Redeem_announce r of
                           None \<Rightarrow> JSBoolean True
                         | Some a \<Rightarrow> JSNumber (AnnounceType_value a))
                        (Cart_args cart) usr
            in if outstandingRedeems st2 (guid (base msg)) \<noteq> None
               then (c, reject c (DuplicateRedeem (guid (base msg))) st2)
               else
                 (let st3 = st2\<lparr>outstandingRedeems :=
                                   (outstandingRedeems st2)(guid (base msg) \<mapsto> msg),
                                 resultHandlers := (resultHandlers st2)(guid (base msg) \<mapsto> c)\<rparr>
                  in (c, snd (sendMessage msg st3)))))"

definition tryResendFromQueue :: "State \<Rightarrow> State" where
  "tryResendFromQueue st =
     (case unsentQueue st of
        [] \<Rightarrow> st
      | msg # rest \<Rightarrow> snd (sendMessage msg (st\<lparr>unsentQueue := rest\<rparr>)))"

definition stressTestSetHandshake :: "bool \<Rightarrow> State \<Rightarrow> State" where
  "stressTestSetHandshake b st = st\<lparr>handshake := b\<rparr>"

text \<open>
  The callback of the \<^verbatim>\<open>setTimeout\<close> of call \<open>c\<close>: it runs once, not before the timer is
  due, and rejects the timeout promise, which settles the race if the race is pending.
  The callback of the \<^verbatim>\<open>setInterval\<close> timer \<open>h\<close> runs \<^verbatim>\<open>tryResendFromQueue\<close> as long
  as the timer has not been cleared.
\<close>

definition timeoutFires :: "nat \<Rightarrow> State \<Rightarrow> State" where
  "timeoutFires c st =
     (case redeemTimeouts st c of
        None \<Rightarrow> st
      | Some due \<Rightarrow>
          if due \<le> now st
          then st\<lparr>redeemTimeouts := (redeemTimeouts st)(c := None),
                  calls := (calls st)(c :=
                    (calls st c)\<lparr>racePromise := settle (racePromise (calls st c)) (Rejected Timeout)\<rparr>)\<rparr>
          else st)"

definition intervalFires :: "nat \<Rightarrow> State \<Rightarrow> State" where
  "intervalFires h st =
     (case intervals st h of None \<Rightarrow> st | Some period \<Rightarrow> tryResendFromQueue st)"

section \<open>Events\<close>

text \<open>
  The \<^verbatim>\<open>close\<close> event of socket \<open>ws\<close>: the socket is \<^verbatim>\<open>CLOSED\<close> and every
  \<^verbatim>\<open>close\<close> handler registered on it runs, one after the other: the handler of
  \<^verbatim>\<open>setSocket\<close>, once for every time the socket was bound.
\<close>

definition socketCloses :: "nat \<Rightarrow> State \<Rightarrow> State" where
  "socketCloses ws st =
     (socketOnClose ^^ listeners st ws)
       (st\<lparr>sockets := (sockets st)(ws := (sockets st ws)\<lparr>readyState := CLOSED\<rparr>)\<rparr>)"

text \<open>
  Everything that can happen to a connection, one event at a time (JavaScript runs each
  callback to its end before the next): the calls of its public methods, the socket's
  \<^verbatim>\<open>close\<close> event, the two kinds of timer callback, the passing of time, and a change
  of the transport's condition. \<open>Receive\<close> is one run of \<^verbatim>\<open>processMessage\<close>: a call
  of the public method, or the run that one \<^verbatim>\<open>message\<close> handler makes for a payload
  that parses (a message on a socket that was bound several times is as many
  \<open>Receive\<close> events in a row).
\<close>

datatype Event =
    SetSocket "nat option"
  | Receive GameMessage
  | SendMessage ServerMessage
  | SubmitRedeem Redeem Cart TwitchUser string
  | StressTestSetHandshake bool
  | SocketClose nat
  | IntervalFires nat
  | TimeoutFires nat
  | Elapse nat
  | Transport nat ReadyState "JSError option"

fun step :: "Event \<Rightarrow> State \<Rightarrow> State" where
  "step (SetSocket ws) st = setSocket ws st"
| "step (Receive msg) st = processMessage msg st"
| "step (SendMessage msg) st = snd (sendMessage msg st)"
| "step (SubmitRedeem r cart usr transactionId) st = snd (redeem r cart usr transactionId st)"
| "step (StressTestSetHandshake b) st = stressTestSetHandshake b st"
| "step (SocketClose ws) st = socketCloses ws st"
| "step (IntervalFires h) st = intervalFires h st"
| "step (TimeoutFires c) st = timeoutFires c st"
| "step (Elapse d) st = st\<lparr>now := now st + d\<rparr>"
| "step (Transport ws rs fault) st =
     st\<lparr>sockets := (sockets st)(ws := (sockets st ws)\<lparr>readyState := rs, sendFault := fault\<rparr>)\<rparr>"

definition run :: "Event list \<Rightarrow> State \<Rightarrow> State" where
  "run es st = fold step es st"

fun isResultFor :: "string \<Rightarrow> Event \<Rightarrow> bool" where
  "isResultFor transactionId (Receive (ResultMessage g t success payload)) = (g = transactionId)"
| "isResultFor transactionId e = False"

fun isBind :: "Event \<Rightarrow> bool" where
  "isBind (SetSocket (Some w)) = True"
| "isBind e = False"

section \<open>Vocabulary of the statements\<close>

text \<open>
  \<open>outbox\<close>: what the bound socket has accepted. \<open>writable\<close>: a socket is bound, open,
  and the transport accepts a write. \<open>canSend\<close>: \<^verbatim>\<open>sendMessage\<close> passes both guards
  and the write succeeds.
\<close>

fun acceptedBy :: "nat option \<Rightarrow> (nat \<Rightarrow> WebSocket) \<Rightarrow> ServerMessage list" where
  "acceptedBy None store = []"
| "acceptedBy (Some ws) store = delivered (store ws)"

fun accepting :: "nat option \<Rightarrow> (nat \<Rightarrow> WebSocket) \<Rightarrow> bool" where
  "accepting None store = False"
| "accepting (Some ws) store = (readyState (store ws) = OPEN \<and> sendFault (store ws) = None)"

definition outbox :: "State \<Rightarrow> ServerMessage list" where
  "outbox st = acceptedBy (socket st) (sockets st)"

definition writable :: "State \<Rightarrow> bool" where
  "writable st = accepting (socket st) (sockets st)"

definition canSend :: "State \<Rightarrow> ServerMessage \<Rightarrow> bool" where
  "canSend st msg = (writable st \<and> (handshake st \<or> messageType (base msg) = Pong))"

text \<open>
  The timers that are left when \<^verbatim>\<open>clearInterval\<close> is called as the \<^verbatim>\<open>close\<close>
  handler calls it, on the stored handle if that is neither \<^verbatim>\<open>undefined\<close> nor 0.
\<close>

fun cleared :: "nat option \<Rightarrow> (nat \<rightharpoonup> nat) \<Rightarrow> (nat \<rightharpoonup> nat)" where
  "cleared None timers = timers"
| "cleared (Some h) timers = (if h \<noteq> 0 then timers(h := None) else timers)"

text \<open>
  The object literal of \<^verbatim>\<open>redeem\<close>, with the time of the call: the message that
  \<^verbatim>\<open>redeem\<close> registers and hands to \<^verbatim>\<open>sendMessage\<close> (lemma \<open>redeem_registered\<close>).
\<close>

definition redeemMessage :: "Redeem \<Rightarrow> Cart \<Rightarrow> TwitchUser \<Rightarrow> string \<Rightarrow> nat \<Rightarrow> ServerMessage" where
  "redeemMessage r cart usr transactionId t =
     RedeemMessage \<lparr>messageType = Redeem, guid = transactionId, timestamp = t\<rparr> Swarm
       (Redeem_id r) (Redeem_title r)
       (case Redeem_announce r of
          None \<Rightarrow> JSBoolean True
        | Some a \<Rightarrow> JSNumber (AnnounceType_value a))
       (Cart_args cart) usr"

text \<open>
  Every stored \<^verbatim>\<open>resolve\<close> belongs to a call that has been made. It holds of a new
  connection and every event keeps it (lemmas \<open>handlersAllocated_initialState\<close> and
  \<open>handlersAllocated_step\<close>).
\<close>

definition handlersAllocated :: "State \<Rightarrow> bool" where
  "handlersAllocated st = (\<forall>g c. resultHandlers st g = Some c \<longrightarrow> c < nextCall st)"

text \<open>
  The part of the state the correlation of redeems lives in, and the condition of a call
  \<open>c\<close> that was registered under \<open>transactionId\<close> with message \<open>msg\<close> and has had
  no result yet: both entries are there, no other guid leads to the call, its own promise
  is pending, and the race is either pending with the timer set for \<open>due\<close> or already
  rejected by the timeout.
\<close>

definition correlation ::
  "State \<Rightarrow> (string \<rightharpoonup> ServerMessage) \<times> (string \<rightharpoonup> nat) \<times> (nat \<Rightarrow> RedeemCall) \<times> nat \<times> (nat \<rightharpoonup> nat)" where
  "correlation st =
     (outstandingRedeems st, resultHandlers st, calls st, nextCall st, redeemTimeouts st)"

definition awaiting :: "string \<Rightarrow> nat \<Rightarrow> ServerMessage \<Rightarrow> nat \<Rightarrow> State \<Rightarrow> bool" where
  "awaiting transactionId c msg due st =
     (c < nextCall st \<and>
      resultHandlers st transactionId = Some c \<and>
      outstandingRedeems st transactionId = Some msg \<and>
      handlersAllocated st \<and>
      (\<forall>g. g \<noteq> transactionId \<longrightarrow> resultHandlers st g \<noteq> Some c) \<and>
      handlerPromise (calls st c) = Pending \<and>
      (racePromise (calls st c) = Pending \<and> redeemTimeouts st c = Some due \<or>
       racePromise (calls st c) = Rejected Timeout))"

section \<open>Example states\<close>

text \<open>
  A new \<^verbatim>\<open>GameConnection\<close> (the initialisers of its fields) where every socket of the
  store is open, accepts writes and has no handler yet, no timer runs and no call was made.
\<close>

definition initialState :: State where
  "initialState =
     \<lparr>handshake = False, socket = None, unsentQueue = [], outstandingRedeems = Map.empty,
      resultHandlers = Map.empty, resendIntervalHandle = None,
      sockets = (\<lambda>ws. \<lparr>readyState = OPEN, sendFault = None, delivered = []\<rparr>),
      listeners = (\<lambda>ws. 0), ingameCalls = [], intervals = Map.empty, timerCount = 0, redeemTimeouts = Map.empty,
      calls = (\<lambda>c. \<lparr>handlerPromise = Pending, racePromise = Pending\<rparr>), nextCall = 0,
      now = 0, uuids = (\<lambda>n. ''uuid''), uuidCount = 0\<rparr>"

text \<open>Socket 0 bound; then the handshake done; then the transport refusing writes.\<close>

definition boundState :: State where
  "boundState = setSocket (Some 0) initialState"

definition shakenState :: State where
  "shakenState = processMessage (HelloMessage ''hello-1'' 0 ''0.1.0'') boundState"

definition brokenPipe :: JSError where
  "brokenPipe = JSError ''Error'' ''write EPIPE''"

definition faultyState :: State where
  "faultyState = step (Transport 0 OPEN (Some brokenPipe)) shakenState"

definition helloBack0 :: ServerMessage where
  "helloBack0 = HelloBackMessage \<lparr>messageType = HelloBack, guid = ''g0'', timestamp = 0\<rparr> True"

definition pong0 :: ServerMessage where
  "pong0 = PongMessage \<lparr>messageType = Pong, guid = ''g1'', timestamp = 0\<rparr>"

definition exampleRedeem :: Redeem where
  "exampleRedeem =
     \<lparr>Redeem_id = ''spawn'', Redeem_title = ''Spawn'', Redeem_description = ''Spawns a thing'',
      Redeem_announce = Some DefaultAnnounce, Redeem_moderated = None, Redeem_image = ''spawn.png'',
      Redeem_price = 100, Redeem_sku = ''bits100'', Redeem_disabled = None, Redeem_hidden = None\<rparr>"

definition exampleCart :: Cart where
  "exampleCart =
     \<lparr>Cart_version = 1, Cart_id = ''spawn'', Cart_sku = ''bits100'',
      Cart_args = [(''what'', ''duck'')], Cart_announce = True\<rparr>"

definition exampleUser :: TwitchUser where
  "exampleUser = TwitchUser ''user-7''"

text \<open>Socket 1 bound after the handshake on socket 0, which \<^verbatim>\<open>setSocket\<close> closes.\<close>

definition reboundState :: State where
  "reboundState = setSocket (Some 1) shakenState"

text \<open>The handshake done and the redeem \<open>tx-1\<close> submitted, its result outstanding.\<close>

definition pendingState :: State where
  "pendingState = snd (redeem exampleRedeem exampleCart exampleUser ''tx-1'' shakenState)"

text \<open>
  Two sends refused by the transport, which leaves both messages in the queue; then the
  transport accepting writes again.
\<close>

definition backlogState :: State where
  "backlogState = fold (\<lambda>m s. snd (sendMessage m s)) [pong0, helloBack0] faultyState"

definition recoveredState :: State where
  "recoveredState = step (Transport 0 OPEN None) backlogState"

section \<open>What a send leaves unchanged, and its two outcomes\<close>

lemma sendMessage_frame [simp]:
  "handshake (snd (sendMessage msg st)) = handshake st"
  "socket (snd (sendMessage msg st)) = socket st"
  "outstandingRedeems (snd (sendMessage msg st)) = outstandingRedeems st"
  "resultHandlers (snd (sendMessage msg st)) = resultHandlers st"
  "resendIntervalHandle (snd (sendMessage msg st)) = resendIntervalHandle st"
  "ingameCalls (snd (sendMessage msg st)) = ingameCalls st"
  "intervals (snd (sendMessage msg st)) = intervals st"
  "timerCount (snd (sendMessage msg st)) = timerCount st"
  "redeemTimeouts (snd (sendMessage msg st)) = redeemTimeouts st"
  "calls (snd (sendMessage msg st)) = calls st"
  "nextCall (snd (sendMessage msg st)) = nextCall st"
  "now (snd (sendMessage msg st)) = now st"
  "uuids (snd (sendMessage msg st)) = uuids st"
  "uuidCount (snd (sendMessage msg st)) = uuidCount st"
  "listeners (snd (sendMessage msg st)) = listeners st"
  by (simp_all add: sendMessage_def msgSendError_def Let_def split: option.splits)

lemma writable_isConnected: "writable st \<Longrightarrow> isConnected st"
  by (cases "socket st") (simp_all add: writable_def isConnected_def)

lemma sendMessage_written:
  assumes "writable st" and "handshake st \<or> messageType (base msg) = Pong"
  shows "fst (sendMessage msg st) = Fulfilled ()"
    and "unsentQueue (snd (sendMessage msg st)) = unsentQueue st"
    and "outbox (snd (sendMessage msg st)) = outbox st @ [msg]"
    and "writable (snd (sendMessage msg st))"
  using assms
  by (cases "socket st";
      auto simp: sendMessage_def writable_def outbox_def isConnected_def Let_def)+

lemma sendMessage_queued:
  assumes "\<not> (writable st \<and> (handshake st \<or> messageType (base msg) = Pong))"
  shows "fst (sendMessage msg st) \<noteq> Fulfilled ()"
    and "snd (sendMessage msg st) = st\<lparr>unsentQueue := unsentQueue st @ [msg]\<rparr>"
  using assms
  by (cases "socket st";
      auto simp: sendMessage_def writable_def msgSendError_def isConnected_def Let_def
        NotConnected_def HandshakeIncomplete_def)+

lemma sendMessage_conserves:
  "mset (unsentQueue (snd (sendMessage msg st))) + mset (outbox (snd (sendMessage msg st))) =
   add_mset msg (mset (unsentQueue st) + mset (outbox st))"
proof (cases "writable st \<and> (handshake st \<or> messageType (base msg) = Pong)")
  case True
  then show ?thesis using sendMessage_written(2,3)[of st msg] by simp
next
  case False
  from sendMessage_queued(2)[OF this] show ?thesis by (simp add: outbox_def)
qed

section \<open>The three outcomes of a redeem call\<close>

lemma redeem_missing:
  assumes "redeem r cart usr [] st = (c, st')"
  shows "c = nextCall st"
    and "st' = st\<lparr>calls := (calls st)(c := \<lparr>handlerPromise = Rejected MissingTransactionId,
                                           racePromise = Rejected MissingTransactionId\<rparr>),
                nextCall := Suc c,
                redeemTimeouts := (redeemTimeouts st)(c \<mapsto> now st + resultWaitTimeout)\<rparr>"
  using assms by (auto simp: redeem_def reject_def settleHandlerPromise_def Let_def)

lemma redeem_duplicate:
  assumes "transactionId \<noteq> []" and "outstandingRedeems st transactionId \<noteq> None"
    and "redeem r cart usr transactionId st = (c, st')"
  shows "c = nextCall st"
    and "st' = st\<lparr>calls := (calls st)(c :=
                    \<lparr>handlerPromise = Rejected (DuplicateRedeem transactionId),
                     racePromise = Rejected (DuplicateRedeem transactionId)\<rparr>),
                nextCall := Suc c,
                redeemTimeouts := (redeemTimeouts st)(c \<mapsto> now st + resultWaitTimeout),
                uuidCount := Suc (uuidCount st)\<rparr>"
  using assms
  by (auto simp: redeem_def reject_def settleHandlerPromise_def makeMessage_def uuid_def Let_def)

lemma redeem_registered:
  assumes "transactionId \<noteq> []" and "outstandingRedeems st transactionId = None"
    and "redeem r cart usr transactionId st = (c, st')"
    and "msg = redeemMessage r cart usr transactionId (now st)"
  shows "c = nextCall st"
    and "st' = snd (sendMessage msg
            (st\<lparr>calls := (calls st)(c := \<lparr>handlerPromise = Pending, racePromise = Pending\<rparr>),
                nextCall := Suc c,
                redeemTimeouts := (redeemTimeouts st)(c \<mapsto> now st + resultWaitTimeout),
                uuidCount := Suc (uuidCount st),
                outstandingRedeems := (outstandingRedeems st)(transactionId \<mapsto> msg),
                resultHandlers := (resultHandlers st)(transactionId \<mapsto> c)\<rparr>))"
  using assms
  by (auto simp: redeem_def redeemMessage_def makeMessage_def uuid_def Let_def)

section \<open>One tick of the resend timer\<close>

lemma tryResend_empty: "unsentQueue st = [] \<Longrightarrow> tryResendFromQueue st = st"
  by (simp add: tryResendFromQueue_def)

lemma tryResend_sent:
  assumes "unsentQueue st = msg # rest" and "canSend st msg"
  shows "unsentQueue (tryResendFromQueue st) = rest"
    and "outbox (tryResendFromQueue st) = outbox st @ [msg]"
    and "writable (tryResendFromQueue st)"
    and "handshake (tryResendFromQueue st) = handshake st"
proof -
  let ?st1 = "st\<lparr>unsentQueue := rest\<rparr>"
  have eq: "tryResendFromQueue st = snd (sendMessage msg ?st1)"
    using assms(1) by (simp add: tryResendFromQueue_def)
  have w: "writable ?st1" and h: "handshake ?st1 \<or> messageType (base msg) = Pong"
    using assms(2) by (simp_all add: canSend_def writable_def)
  have o: "outbox ?st1 = outbox st" by (simp add: outbox_def)
  show "unsentQueue (tryResendFromQueue st) = rest"
    using sendMessage_written(2)[OF w h] by (simp add: eq)
  show "outbox (tryResendFromQueue st) = outbox st @ [msg]"
    using sendMessage_written(3)[OF w h] o by (simp add: eq)
  show "writable (tryResendFromQueue st)"
    using sendMessage_written(4)[OF w h] by (simp add: eq)
  show "handshake (tryResendFromQueue st) = handshake st"
    by (simp add: eq)
qed

lemma tryResend_requeued:
  assumes "unsentQueue st = msg # rest" and "\<not> canSend st msg"
  shows "tryResendFromQueue st = st\<lparr>unsentQueue := rest @ [msg]\<rparr>"
proof -
  let ?st1 = "st\<lparr>unsentQueue := rest\<rparr>"
  have eq: "tryResendFromQueue st = snd (sendMessage msg ?st1)"
    using assms(1) by (simp add: tryResendFromQueue_def)
  have "\<not> (writable ?st1 \<and> (handshake ?st1 \<or> messageType (base msg) = Pong))"
    using assms(2) by (simp add: canSend_def writable_def)
  from sendMessage_queued(2)[OF this] show ?thesis by (simp add: eq)
qed

lemma ticks_deliver_in_order:
  assumes "writable st" and "handshake st"
  shows "unsentQueue ((tryResendFromQueue ^^ n) st) = drop n (unsentQueue st) \<and>
         outbox ((tryResendFromQueue ^^ n) st) = outbox st @ take n (unsentQueue st) \<and>
         writable ((tryResendFromQueue ^^ n) st) \<and> handshake ((tryResendFromQueue ^^ n) st)"
proof (induction n)
  case 0
  show ?case using assms by simp
next
  case (Suc n)
  let ?s = "(tryResendFromQueue ^^ n) st"
  from Suc.IH have q: "unsentQueue ?s = drop n (unsentQueue st)"
    and o: "outbox ?s = outbox st @ take n (unsentQueue st)"
    and w: "writable ?s" and h: "handshake ?s" by simp_all
  show ?case
  proof (cases "drop n (unsentQueue st)")
    case Nil
    then have "tryResendFromQueue ?s = ?s" using q by (simp add: tryResend_empty)
    moreover from Nil have "drop (Suc n) (unsentQueue st) = []"
      and "take (Suc n) (unsentQueue st) = take n (unsentQueue st)" by simp_all
    ultimately show ?thesis using q o w h Nil by simp
  next
    case (Cons m rest)
    then have qs: "unsentQueue ?s = m # rest" using q by simp
    have cs: "canSend ?s m" using w h by (simp add: canSend_def)
    have lt: "n < length (unsentQueue st)"
      using Cons by (cases "n < length (unsentQueue st)") simp_all
    have m: "m = unsentQueue st ! n" and r: "rest = drop (Suc n) (unsentQueue st)"
      using Cons lt by (simp_all add: Cons_nth_drop_Suc[symmetric])
    have t: "take (Suc n) (unsentQueue st) = take n (unsentQueue st) @ [m]"
      using lt m by (simp add: take_Suc_conv_app_nth)
    show ?thesis
      using tryResend_sent[OF qs cs] o r t h by simp
  qed
qed

lemma tryResend_conserves:
  "mset (unsentQueue (tryResendFromQueue st)) + mset (outbox (tryResendFromQueue st)) =
   mset (unsentQueue st) + mset (outbox st)"
proof (cases "unsentQueue st")
  case Nil
  then show ?thesis by (simp add: tryResend_empty)
next
  case (Cons m rest)
  have o: "outbox (st\<lparr>unsentQueue := rest\<rparr>) = outbox st" by (simp add: outbox_def)
  have "tryResendFromQueue st = snd (sendMessage m (st\<lparr>unsentQueue := rest\<rparr>))"
    using Cons by (simp add: tryResendFromQueue_def)
  then show ?thesis
    using sendMessage_conserves[of m "st\<lparr>unsentQueue := rest\<rparr>"] Cons o by simp
qed

lemma failed_sends_queue_in_order:
  assumes "\<not> writable st"
  shows "fold (\<lambda>m s. snd (sendMessage m s)) msgs st = st\<lparr>unsentQueue := unsentQueue st @ msgs\<rparr>"
  using assms
proof (induction msgs arbitrary: st)
  case Nil
  show ?case by simp
next
  case (Cons m msgs)
  let ?s = "st\<lparr>unsentQueue := unsentQueue st @ [m]\<rparr>"
  have "\<not> (writable st \<and> (handshake st \<or> messageType (base m) = Pong))"
    using Cons.prems by simp
  from sendMessage_queued(2)[OF this] have e: "snd (sendMessage m st) = ?s" .
  have "\<not> writable ?s" using Cons.prems by (simp add: writable_def)
  from Cons.IH[OF this] show ?case by (simp add: e)
qed

section \<open>The example states, evaluated\<close>

lemma boundState_eq:
  "boundState = initialState\<lparr>socket := Some 0, resendIntervalHandle := Some 1,
     intervals := [1 \<mapsto> 500], timerCount := 1, listeners := (\<lambda>ws. 0)(0 := 1)\<rparr>"
  by (simp add: boundState_def initialState_def setSocket_def isConnected_def setInterval_def
      resendInterval_def Let_def)

lemma shakenState_eq:
  "shakenState = boundState\<lparr>handshake := True, uuidCount := 1,
     sockets := (sockets boundState)(0 := \<lparr>readyState = OPEN, sendFault = None,
       delivered = [HelloBackMessage
         \<lparr>messageType = HelloBack, guid = ''uuid'', timestamp = 0\<rparr> True]\<rparr>)\<rparr>"
  by (simp add: shakenState_def boundState_eq initialState_def makeMessage_def uuid_def
      sendMessage_def isConnected_def VERSION_def Let_def)

lemma faultyState_eq:
  "faultyState = shakenState\<lparr>
     sockets := (sockets shakenState)(0 := \<lparr>readyState = OPEN, sendFault = Some brokenPipe,
       delivered = [HelloBackMessage
         \<lparr>messageType = HelloBack, guid = ''uuid'', timestamp = 0\<rparr> True]\<rparr>)\<rparr>"
  by (simp add: faultyState_def shakenState_eq)

lemmas example_states = faultyState_eq shakenState_eq boundState_eq initialState_def

lemma pendingState_facts:
  "outstandingRedeems pendingState ''tx-1'' =
     Some (redeemMessage exampleRedeem exampleCart exampleUser ''tx-1'' 0)"
  "resultHandlers pendingState ''tx-1'' = Some 0"
  "nextCall pendingState = 1"
  "unsentQueue pendingState = []"
  "calls pendingState 0 = \<lparr>handlerPromise = Pending, racePromise = Pending\<rparr>"
  "redeemTimeouts pendingState 0 = Some 10000"
  "now pendingState = 0"
proof -
  have ne: "''tx-1'' \<noteq> []" by simp
  have fresh: "outstandingRedeems shakenState ''tx-1'' = None"
    by (simp add: example_states)
  have n: "nextCall shakenState = 0" "now shakenState = 0"
    by (simp_all add: example_states)
  have c: "fst (redeem exampleRedeem exampleCart exampleUser ''tx-1'' shakenState) = 0"
    using redeem_registered(1)[OF ne fresh prod.collapse[symmetric] refl] n by simp
  note e = redeem_registered(2)[OF ne fresh prod.collapse[symmetric] refl,
      of exampleRedeem exampleCart exampleUser, unfolded c n, folded pendingState_def]
  let ?msg = "redeemMessage exampleRedeem exampleCart exampleUser ''tx-1'' 0"
  let ?st3 = "shakenState\<lparr>calls := (calls shakenState)
                  (0 := \<lparr>handlerPromise = Pending, racePromise = Pending\<rparr>),
                nextCall := Suc 0,
                redeemTimeouts := (redeemTimeouts shakenState)(0 \<mapsto> 0 + resultWaitTimeout),
                uuidCount := Suc (uuidCount shakenState),
                outstandingRedeems := (outstandingRedeems shakenState)(''tx-1'' \<mapsto> ?msg),
                resultHandlers := (resultHandlers shakenState)(''tx-1'' \<mapsto> 0)\<rparr>"
  have w: "writable ?st3" and h: "handshake ?st3"
    by (simp_all add: writable_def example_states)
  show "outstandingRedeems pendingState ''tx-1'' = Some ?msg"
    and "resultHandlers pendingState ''tx-1'' = Some 0"
    and "nextCall pendingState = 1"
    and "calls pendingState 0 = \<lparr>handlerPromise = Pending, racePromise = Pending\<rparr>"
    and "redeemTimeouts pendingState 0 = Some 10000"
    and "now pendingState = 0"
    by (simp_all add: e resultWaitTimeout_def n)
  show "unsentQueue pendingState = []"
    using sendMessage_written(2)[OF w disjI1[OF h], of ?msg]
    by (simp add: e) (simp add: example_states)
qed

lemma example_writable:
  "\<not> writable initialState" "writable boundState" "writable shakenState"
  "\<not> writable faultyState"
  by (simp_all add: writable_def example_states)

lemma example_outbox:
  "outbox initialState = []" "outbox boundState = []"
  "outbox shakenState =
     [HelloBackMessage \<lparr>messageType = HelloBack, guid = ''uuid'', timestamp = 0\<rparr> True]"
  by (simp_all add: outbox_def example_states)

lemma example_queue:
  "unsentQueue initialState = []" "unsentQueue boundState = []"
  "unsentQueue shakenState = []" "unsentQueue faultyState = []"
  by (simp_all add: example_states)

lemma example_handshake:
  "\<not> handshake initialState" "\<not> handshake boundState" "handshake shakenState"
  "handshake faultyState"
  by (simp_all add: example_states)

lemma backlogState_eq: "backlogState = faultyState\<lparr>unsentQueue := [pong0, helloBack0]\<rparr>"
  by (simp only: backlogState_def failed_sends_queue_in_order[OF example_writable(4)]
      example_queue append_Nil)

lemma recoveredState_facts:
  "writable recoveredState" "handshake recoveredState"
  "unsentQueue recoveredState = [pong0, helloBack0]"
  "outbox recoveredState =
     [HelloBackMessage \<lparr>messageType = HelloBack, guid = ''uuid'', timestamp = 0\<rparr> True]"
  by (simp_all add: recoveredState_def backlogState_eq writable_def outbox_def example_states)

section \<open>Correlation of a redeem with its result\<close>

text \<open>
  C1. For a non-empty transaction id that has no outstanding record, \<^verbatim>\<open>redeem\<close>
  followed by \<^verbatim>\<open>processMessage\<close> of a Result whose guid is that id fulfils the promise
  of exactly that call with that Result message (the call was pending in between, no other
  call changes), and the id is gone from \<open>outstandingRedeems\<close> and from
  \<open>resultHandlers\<close>; the entries of other ids are as before the call.
\<close>

theorem redeem_then_Result_resolves:
  assumes "transactionId \<noteq> []" and "outstandingRedeems st transactionId = None"
    and "redeem r cart usr transactionId st = (c, st1)"
    and "result = ResultMessage transactionId t success payload"
    and "st2 = processMessage result st1"
  shows "c = nextCall st \<and>
         racePromise (calls st1 c) = Pending \<and>
         resultHandlers st1 transactionId = Some c \<and>
         outstandingRedeems st1 transactionId =
           Some (redeemMessage r cart usr transactionId (now st)) \<and>
         racePromise (calls st2 c) = Fulfilled result \<and>
         (\<forall>c'. c' \<noteq> c \<longrightarrow> calls st2 c' = calls st c') \<and>
         outstandingRedeems st2 transactionId = None \<and>
         resultHandlers st2 transactionId = None \<and>
         (\<forall>g. g \<noteq> transactionId \<longrightarrow>
            outstandingRedeems st2 g = outstandingRedeems st g \<and>
            resultHandlers st2 g = resultHandlers st g)"
proof -
  note reg = redeem_registered[OF assms(1,2,3) refl]
  show ?thesis
    unfolding assms(5) assms(4)
    by (simp add: reg(2) resolve_def settleHandlerPromise_def reg(1)[symmetric])
qed

theorem redeem_then_Result_resolves_witness:
  "''tx-1'' \<noteq> [] \<and> outstandingRedeems shakenState ''tx-1'' = None \<and>
   fst (redeem exampleRedeem exampleCart exampleUser ''tx-1'' shakenState) = 0 \<and>
   racePromise (calls (processMessage (ResultMessage ''tx-1'' 5 True ''done'')
       (snd (redeem exampleRedeem exampleCart exampleUser ''tx-1'' shakenState))) 0) =
     Fulfilled (ResultMessage ''tx-1'' 5 True ''done'') \<and>
   outstandingRedeems (processMessage (ResultMessage ''tx-1'' 5 True ''done'')
       (snd (redeem exampleRedeem exampleCart exampleUser ''tx-1'' shakenState))) ''tx-1'' = None \<and>
   resultHandlers (processMessage (ResultMessage ''tx-1'' 5 True ''done'')
       (snd (redeem exampleRedeem exampleCart exampleUser ''tx-1'' shakenState))) ''tx-1'' = None"
proof -
  have ne: "''tx-1'' \<noteq> []" by simp
  have fresh: "outstandingRedeems shakenState ''tx-1'' = None"
    by (simp add: example_states)
  have n: "nextCall shakenState = 0" by (simp add: example_states)
  from redeem_then_Result_resolves[OF ne fresh prod.collapse[symmetric] refl refl,
      of exampleRedeem exampleCart exampleUser 5 True "''done''"] ne fresh n
  show ?thesis by (auto simp del: processMessage.simps)
qed

section \<open>Rejections and the resend queue\<close>

text \<open>
  C3, as the claim states it, fails: a send without an open socket is rejected with
  NotConnected and the message is pushed to the resend queue all the same.
\<close>

theorem NotConnected_send_is_queued_counterexample:
  "fst (sendMessage helloBack0 initialState) = Rejected NotConnected \<and>
   unsentQueue initialState = [] \<and>
   unsentQueue (snd (sendMessage helloBack0 initialState)) = [helloBack0]"
  by (simp add: initialState_def sendMessage_def isConnected_def msgSendError_def)

text \<open>
  C3, amended. MissingTransactionId (empty transaction id) and DuplicateRedeem (id already
  outstanding) reject the call and leave the resend queue, the sockets and both
  correlation maps as they were, so the first submission's registration and its promise
  stay intact. NotConnected and HandshakeIncomplete reject the send and register nothing,
  but push the message to the tail of the resend queue: the state changes in the queue and
  nowhere else.
\<close>

theorem synchronous_rejections:
  "(\<not> isConnected st \<longrightarrow>
      sendMessage msg st = (Rejected NotConnected, st\<lparr>unsentQueue := unsentQueue st @ [msg]\<rparr>)) \<and>
   (isConnected st \<and> \<not> handshake st \<and> messageType (base msg) \<noteq> Pong \<longrightarrow>
      sendMessage msg st =
        (Rejected HandshakeIncomplete, st\<lparr>unsentQueue := unsentQueue st @ [msg]\<rparr>)) \<and>
   (redeem r cart usr [] st = (c, st') \<longrightarrow>
      racePromise (calls st' c) = Rejected MissingTransactionId \<and>
      unsentQueue st' = unsentQueue st \<and> sockets st' = sockets st \<and>
      outstandingRedeems st' = outstandingRedeems st \<and> resultHandlers st' = resultHandlers st) \<and>
   (transactionId \<noteq> [] \<and> outstandingRedeems st transactionId = Some first \<and>
    redeem r cart usr transactionId st = (d, st'') \<longrightarrow>
      racePromise (calls st'' d) = Rejected (DuplicateRedeem transactionId) \<and>
      unsentQueue st'' = unsentQueue st \<and> sockets st'' = sockets st \<and>
      outstandingRedeems st'' = outstandingRedeems st \<and> resultHandlers st'' = resultHandlers st \<and>
      (\<forall>c0. c0 \<noteq> nextCall st \<longrightarrow> calls st'' c0 = calls st c0))"
proof -
  have a: "\<not> isConnected st \<longrightarrow>
      sendMessage msg st = (Rejected NotConnected, st\<lparr>unsentQueue := unsentQueue st @ [msg]\<rparr>)"
    by (simp add: sendMessage_def msgSendError_def)
  have b: "isConnected st \<and> \<not> handshake st \<and> messageType (base msg) \<noteq> Pong \<longrightarrow>
      sendMessage msg st =
        (Rejected HandshakeIncomplete, st\<lparr>unsentQueue := unsentQueue st @ [msg]\<rparr>)"
    by (simp add: sendMessage_def msgSendError_def)
  have c: "redeem r cart usr [] st = (c, st') \<longrightarrow>
      racePromise (calls st' c) = Rejected MissingTransactionId \<and>
      unsentQueue st' = unsentQueue st \<and> sockets st' = sockets st \<and>
      outstandingRedeems st' = outstandingRedeems st \<and> resultHandlers st' = resultHandlers st"
  proof
    assume h: "redeem r cart usr [] st = (c, st')"
    show "racePromise (calls st' c) = Rejected MissingTransactionId \<and>
      unsentQueue st' = unsentQueue st \<and> sockets st' = sockets st \<and>
      outstandingRedeems st' = outstandingRedeems st \<and> resultHandlers st' = resultHandlers st"
      by (simp add: redeem_missing(2)[OF h])
  qed
  have d: "transactionId \<noteq> [] \<and> outstandingRedeems st transactionId = Some first \<and>
    redeem r cart usr transactionId st = (d, st'') \<longrightarrow>
      racePromise (calls st'' d) = Rejected (DuplicateRedeem transactionId) \<and>
      unsentQueue st'' = unsentQueue st \<and> sockets st'' = sockets st \<and>
      outstandingRedeems st'' = outstandingRedeems st \<and> resultHandlers st'' = resultHandlers st \<and>
      (\<forall>c0. c0 \<noteq> nextCall st \<longrightarrow> calls st'' c0 = calls st c0)"
  proof
    assume h: "transactionId \<noteq> [] \<and> outstandingRedeems st transactionId = Some first \<and>
      redeem r cart usr transactionId st = (d, st'')"
    then have n: "outstandingRedeems st transactionId \<noteq> None" by simp
    from h have e: "redeem r cart usr transactionId st = (d, st'')"
      and ne: "transactionId \<noteq> []" by simp_all
    show "racePromise (calls st'' d) = Rejected (DuplicateRedeem transactionId) \<and>
      unsentQueue st'' = unsentQueue st \<and> sockets st'' = sockets st \<and>
      outstandingRedeems st'' = outstandingRedeems st \<and> resultHandlers st'' = resultHandlers st \<and>
      (\<forall>c0. c0 \<noteq> nextCall st \<longrightarrow> calls st'' c0 = calls st c0)"
      using redeem_duplicate(1)[OF ne n e] by (simp add: redeem_duplicate(2)[OF ne n e])
  qed
  show ?thesis using a b c d by blast
qed

theorem synchronous_rejections_witness:
  "(\<not> isConnected initialState \<and>
      sendMessage helloBack0 initialState =
        (Rejected NotConnected, initialState\<lparr>unsentQueue := [helloBack0]\<rparr>)) \<and>
   (isConnected boundState \<and> \<not> handshake boundState \<and> messageType (base helloBack0) \<noteq> Pong \<and>
      sendMessage helloBack0 boundState =
        (Rejected HandshakeIncomplete, boundState\<lparr>unsentQueue := [helloBack0]\<rparr>)) \<and>
   (racePromise (calls (snd (redeem exampleRedeem exampleCart exampleUser [] pendingState))
        (fst (redeem exampleRedeem exampleCart exampleUser [] pendingState))) =
      Rejected MissingTransactionId \<and>
    outstandingRedeems (snd (redeem exampleRedeem exampleCart exampleUser [] pendingState)) =
      outstandingRedeems pendingState) \<and>
   (''tx-1'' \<noteq> [] \<and>
    outstandingRedeems pendingState ''tx-1'' =
      Some (redeemMessage exampleRedeem exampleCart exampleUser ''tx-1'' 0) \<and>
    racePromise (calls (snd (redeem exampleRedeem exampleCart exampleUser ''tx-1'' pendingState))
        (fst (redeem exampleRedeem exampleCart exampleUser ''tx-1'' pendingState))) =
      Rejected (DuplicateRedeem ''tx-1'') \<and>
    outstandingRedeems (snd (redeem exampleRedeem exampleCart exampleUser ''tx-1'' pendingState)) =
      outstandingRedeems pendingState \<and>
    resultHandlers (snd (redeem exampleRedeem exampleCart exampleUser ''tx-1'' pendingState)) =
      resultHandlers pendingState \<and>
    calls (snd (redeem exampleRedeem exampleCart exampleUser ''tx-1'' pendingState)) 0 =
      calls pendingState 0)"
proof -
  have a0: "\<not> isConnected initialState" and q0: "unsentQueue initialState = []"
    by (simp_all add: initialState_def isConnected_def)
  have a: "sendMessage helloBack0 initialState =
        (Rejected NotConnected, initialState\<lparr>unsentQueue := [helloBack0]\<rparr>)"
    using synchronous_rejections[where st = initialState and msg = helloBack0] a0 q0 by simp
  have b0: "isConnected boundState" "\<not> handshake boundState"
    "messageType (base helloBack0) \<noteq> Pong" and q1: "unsentQueue boundState = []"
    by (simp_all add: example_states isConnected_def helloBack0_def)
  have b: "sendMessage helloBack0 boundState =
        (Rejected HandshakeIncomplete, boundState\<lparr>unsentQueue := [helloBack0]\<rparr>)"
    using synchronous_rejections[where st = boundState and msg = helloBack0] b0 q1 by simp
  have c: "racePromise (calls (snd (redeem exampleRedeem exampleCart exampleUser [] pendingState))
        (fst (redeem exampleRedeem exampleCart exampleUser [] pendingState))) =
      Rejected MissingTransactionId \<and>
    outstandingRedeems (snd (redeem exampleRedeem exampleCart exampleUser [] pendingState)) =
      outstandingRedeems pendingState"
    using synchronous_rejections[where st = pendingState and r = exampleRedeem
        and cart = exampleCart and usr = exampleUser
        and c = "fst (redeem exampleRedeem exampleCart exampleUser [] pendingState)"
        and st' = "snd (redeem exampleRedeem exampleCart exampleUser [] pendingState)"]
    by simp
  have d: "racePromise
        (calls (snd (redeem exampleRedeem exampleCart exampleUser ''tx-1'' pendingState))
        (fst (redeem exampleRedeem exampleCart exampleUser ''tx-1'' pendingState))) =
      Rejected (DuplicateRedeem ''tx-1'') \<and>
    outstandingRedeems (snd (redeem exampleRedeem exampleCart exampleUser ''tx-1'' pendingState)) =
      outstandingRedeems pendingState \<and>
    resultHandlers (snd (redeem exampleRedeem exampleCart exampleUser ''tx-1'' pendingState)) =
      resultHandlers pendingState \<and>
    calls (snd (redeem exampleRedeem exampleCart exampleUser ''tx-1'' pendingState)) 0 =
      calls pendingState 0"
    using synchronous_rejections[where st = pendingState and r = exampleRedeem
        and cart = exampleCart and usr = exampleUser and transactionId = "''tx-1''"
        and first = "redeemMessage exampleRedeem exampleCart exampleUser ''tx-1'' 0"
        and d = "fst (redeem exampleRedeem exampleCart exampleUser ''tx-1'' pendingState)"
        and st'' = "snd (redeem exampleRedeem exampleCart exampleUser ''tx-1'' pendingState)"]
      pendingState_facts(1,3)
    by simp
  show ?thesis using a0 a b0 b c d pendingState_facts(1) by simp
qed

section \<open>The handshake\<close>

text \<open>
  C4. \<^verbatim>\<open>processMessage\<close> of a Hello with version X sets the handshake to complete,
  whatever X is, and hands to \<^verbatim>\<open>sendMessage\<close> a HelloBack whose \<open>allowed\<close> is
  (X = VERSION), the string 0.1.0: the reply goes out on the bound socket when that is open
  and accepts the write, and to the tail of the resend queue otherwise.
\<close>

theorem Hello_replies_HelloBack:
  assumes "st' = processMessage (HelloMessage g t version) st"
    and "reply = HelloBackMessage
           \<lparr>messageType = HelloBack, guid = uuids st (uuidCount st), timestamp = now st\<rparr>
           (version = VERSION)"
  shows "handshake st' \<and> allowed reply = (version = ''0.1.0'') \<and>
     (if writable st
      then outbox st' = outbox st @ [reply] \<and> unsentQueue st' = unsentQueue st
      else unsentQueue st' = unsentQueue st @ [reply] \<and> outbox st' = outbox st)"
proof -
  let ?st2 = "st\<lparr>handshake := True, uuidCount := Suc (uuidCount st)\<rparr>"
  have eq: "st' = snd (sendMessage reply ?st2)"
    using assms by (simp add: makeMessage_def uuid_def Let_def)
  have w: "writable ?st2 = writable st" and o: "outbox ?st2 = outbox st"
    by (simp_all add: writable_def outbox_def)
  show ?thesis
  proof (cases "writable st")
    case True
    then have "writable ?st2" using w by simp
    from sendMessage_written(2,3)[OF this, of reply] True o assms(2) eq
    show ?thesis by (simp add: VERSION_def)
  next
    case False
    then have "\<not> (writable ?st2 \<and> (handshake ?st2 \<or> messageType (base reply) = Pong))"
      using w by simp
    from sendMessage_queued(2)[OF this] False assms(2) eq
    show ?thesis by (simp add: VERSION_def outbox_def)
  qed
qed

theorem Hello_replies_HelloBack_witness:
  "handshake (processMessage (HelloMessage ''hello-1'' 0 ''0.1.0'') boundState) \<and>
   outbox (processMessage (HelloMessage ''hello-1'' 0 ''0.1.0'') boundState) =
     [HelloBackMessage \<lparr>messageType = HelloBack, guid = ''uuid'', timestamp = 0\<rparr> True] \<and>
   handshake (processMessage (HelloMessage ''hello-2'' 0 ''0.0.9'') boundState) \<and>
   outbox (processMessage (HelloMessage ''hello-2'' 0 ''0.0.9'') boundState) =
     [HelloBackMessage \<lparr>messageType = HelloBack, guid = ''uuid'', timestamp = 0\<rparr> False] \<and>
   handshake (processMessage (HelloMessage ''hello-3'' 0 ''0.1.0'') initialState) \<and>
   unsentQueue (processMessage (HelloMessage ''hello-3'' 0 ''0.1.0'') initialState) =
     [HelloBackMessage \<lparr>messageType = HelloBack, guid = ''uuid'', timestamp = 0\<rparr> True]"
proof -
  have u: "uuids boundState (uuidCount boundState) = ''uuid''" "now boundState = 0"
    "uuids initialState (uuidCount initialState) = ''uuid''" "now initialState = 0"
    by (simp_all add: example_states)
  from Hello_replies_HelloBack[OF refl refl, of "''hello-1''" 0 "''0.1.0''" boundState]
    Hello_replies_HelloBack[OF refl refl, of "''hello-2''" 0 "''0.0.9''" boundState]
    Hello_replies_HelloBack[OF refl refl, of "''hello-3''" 0 "''0.1.0''" initialState]
  show ?thesis
    by (simp add: u example_writable example_outbox example_queue VERSION_def
        del: processMessage.simps)
qed

text \<open>
  C5, as the claim states it, fails: before the handshake and without an open socket, a
  send of a message that is no Pong is rejected with NotConnected, not with
  HandshakeIncomplete, because the socket is checked first.
\<close>

theorem handshake_gate_counterexample:
  "\<not> handshake initialState \<and> messageType (base helloBack0) \<noteq> Pong \<and>
   fst (sendMessage helloBack0 initialState) = Rejected NotConnected \<and>
   fst (sendMessage helloBack0 initialState) \<noteq> Rejected HandshakeIncomplete"
  by (simp add: initialState_def helloBack0_def sendMessage_def isConnected_def
      NotConnected_def HandshakeIncomplete_def)

text \<open>
  C5, amended. Before the handshake, a send of a message other than Pong is rejected with
  HandshakeIncomplete when the socket is open, and with NotConnected when it is not.
  A Pong is sent, whatever the handshake, when the socket is open and the transport accepts
  the write. \<^verbatim>\<open>processMessage\<close> of a Ping leaves the handshake as it is and hands a
  Pong to \<^verbatim>\<open>sendMessage\<close> at once: the Pong goes out when the socket is open and accepts
  the write, and to the tail of the resend queue otherwise.
\<close>

theorem handshake_gate:
  "(\<not> handshake st \<and> isConnected st \<and> messageType (base msg) \<noteq> Pong \<longrightarrow>
      fst (sendMessage msg st) = Rejected HandshakeIncomplete) \<and>
   (\<not> isConnected st \<longrightarrow> fst (sendMessage msg st) = Rejected NotConnected) \<and>
   (writable st \<and> messageType (base msg) = Pong \<longrightarrow>
      fst (sendMessage msg st) = Fulfilled () \<and>
      outbox (snd (sendMessage msg st)) = outbox st @ [msg]) \<and>
   (let st' = processMessage (PingMessage g t) st;
        pong = PongMessage
          \<lparr>messageType = Pong, guid = uuids st (uuidCount st), timestamp = now st\<rparr>
    in handshake st' = handshake st \<and>
       (if writable st
        then outbox st' = outbox st @ [pong] \<and> unsentQueue st' = unsentQueue st
        else unsentQueue st' = unsentQueue st @ [pong] \<and> outbox st' = outbox st))"
proof -
  let ?pong = "PongMessage
    \<lparr>messageType = Pong, guid = uuids st (uuidCount st), timestamp = now st\<rparr>"
  let ?st1 = "st\<lparr>uuidCount := Suc (uuidCount st)\<rparr>"
  have a: "\<not> handshake st \<and> isConnected st \<and> messageType (base msg) \<noteq> Pong \<longrightarrow>
      fst (sendMessage msg st) = Rejected HandshakeIncomplete"
    by (simp add: sendMessage_def)
  have b: "\<not> isConnected st \<longrightarrow> fst (sendMessage msg st) = Rejected NotConnected"
    by (simp add: sendMessage_def)
  have c: "writable st \<and> messageType (base msg) = Pong \<longrightarrow>
      fst (sendMessage msg st) = Fulfilled () \<and>
      outbox (snd (sendMessage msg st)) = outbox st @ [msg]"
    using sendMessage_written(1,3)[of st msg] by simp
  have eq: "processMessage (PingMessage g t) st = snd (sendMessage ?pong ?st1)"
    by (simp add: makeMessage_def uuid_def Let_def)
  have w: "writable ?st1 = writable st" and o: "outbox ?st1 = outbox st"
    by (simp_all add: writable_def outbox_def)
  have d: "handshake (snd (sendMessage ?pong ?st1)) = handshake st \<and>
       (if writable st
        then outbox (snd (sendMessage ?pong ?st1)) = outbox st @ [?pong] \<and>
             unsentQueue (snd (sendMessage ?pong ?st1)) = unsentQueue st
        else unsentQueue (snd (sendMessage ?pong ?st1)) = unsentQueue st @ [?pong] \<and>
             outbox (snd (sendMessage ?pong ?st1)) = outbox st)"
  proof (cases "writable st")
    case True
    then have "writable ?st1" using w by simp
    from sendMessage_written(2,3)[OF this, of ?pong] True o
    show ?thesis by simp
  next
    case False
    then have "\<not> (writable ?st1 \<and> (handshake ?st1 \<or> messageType (base ?pong) = Pong))"
      using w by simp
    from sendMessage_queued(2)[OF this] False
    show ?thesis by (simp add: outbox_def)
  qed
  show ?thesis using a b c d unfolding eq Let_def by blast
qed

theorem handshake_gate_witness:
  "(\<not> handshake boundState \<and> isConnected boundState \<and> messageType (base helloBack0) \<noteq> Pong \<and>
      fst (sendMessage helloBack0 boundState) = Rejected HandshakeIncomplete) \<and>
   (\<not> isConnected initialState \<and>
      fst (sendMessage helloBack0 initialState) = Rejected NotConnected) \<and>
   (writable boundState \<and> messageType (base pong0) = Pong \<and>
      fst (sendMessage pong0 boundState) = Fulfilled () \<and>
      outbox (snd (sendMessage pong0 boundState)) = [pong0]) \<and>
   (\<not> handshake (processMessage (PingMessage ''ping-1'' 0) boundState) \<and>
    outbox (processMessage (PingMessage ''ping-1'' 0) boundState) =
      [PongMessage \<lparr>messageType = Pong, guid = ''uuid'', timestamp = 0\<rparr>]) \<and>
   (handshake (processMessage (PingMessage ''ping-2'' 0) shakenState) \<and>
    outbox (processMessage (PingMessage ''ping-2'' 0) shakenState) =
      [HelloBackMessage \<lparr>messageType = HelloBack, guid = ''uuid'', timestamp = 0\<rparr> True,
       PongMessage \<lparr>messageType = Pong, guid = ''uuid'', timestamp = 0\<rparr>])"
proof -
  have c: "isConnected boundState" "\<not> isConnected initialState"
    "messageType (base helloBack0) \<noteq> Pong" "messageType (base pong0) = Pong"
    by (simp_all add: isConnected_def helloBack0_def pong0_def example_states)
  have u: "uuids boundState (uuidCount boundState) = ''uuid''" "now boundState = 0"
    "uuids shakenState (uuidCount shakenState) = ''uuid''" "now shakenState = 0"
    by (simp_all add: example_states)
  from handshake_gate[of boundState helloBack0 "''ping-1''" 0]
    handshake_gate[of initialState helloBack0 "''ping-1''" 0]
    handshake_gate[of boundState pong0 "''ping-1''" 0]
    handshake_gate[of shakenState pong0 "''ping-2''" 0]
  show ?thesis
    by (simp add: c u example_writable example_outbox example_queue example_handshake Let_def
        del: processMessage.simps)
qed

section \<open>Failed sends and the resend queue\<close>

text \<open>
  C6. When the socket is open, the handshake gate is passed and the transport fails the
  write, \<^verbatim>\<open>sendMessage\<close> rejects with the transport's error and the message is at the
  tail of the resend queue, nothing else changed; the push, \<^verbatim>\<open>msgSendError\<close>, has no
  failing case.
\<close>

theorem send_failure_rejects_and_queues:
  assumes "isConnected st" and "handshake st \<or> messageType (base msg) = Pong"
    and "sendFault (sockets st (the (socket st))) = Some err"
  shows "sendMessage msg st =
           (Rejected (Thrown err), st\<lparr>unsentQueue := unsentQueue st @ [msg]\<rparr>) \<and>
         unsentQueue (msgSendError msg st) = unsentQueue st @ [msg]"
  using assms by (auto simp: sendMessage_def msgSendError_def Let_def)

theorem send_failure_rejects_and_queues_witness:
  "isConnected faultyState \<and> handshake faultyState \<and>
   sendFault (sockets faultyState (the (socket faultyState))) = Some brokenPipe \<and>
   sendMessage helloBack0 faultyState =
     (Rejected (Thrown brokenPipe), faultyState\<lparr>unsentQueue := [helloBack0]\<rparr>)"
proof -
  have c: "isConnected faultyState" and h: "handshake faultyState"
    and f: "sendFault (sockets faultyState (the (socket faultyState))) = Some brokenPipe"
    by (simp_all add: isConnected_def example_states)
  from send_failure_rejects_and_queues[OF c disjI1[OF h] f, of helloBack0] c h f
  show ?thesis by (simp add: example_queue)
qed

text \<open>
  C7. A tick of the resend timer runs \<^verbatim>\<open>tryResendFromQueue\<close>, which does nothing on an
  empty queue and otherwise takes the oldest message alone: it goes out on the socket when
  it can be sent, and to the tail of the queue when the attempt fails. While the socket
  accepts writes after the handshake, \<open>n\<close> ticks send the first \<open>n\<close> queued messages in
  the order of the queue; failed sends enter the queue in the order they were made; and
  over a tick the messages in the queue and on the socket together stay the same, so none
  is lost.
\<close>

theorem resend_queue_fifo:
  "(intervals st h = Some period \<longrightarrow> intervalFires h st = tryResendFromQueue st) \<and>
   (unsentQueue st = [] \<longrightarrow> tryResendFromQueue st = st) \<and>
   (unsentQueue st = msg # rest \<and> canSend st msg \<longrightarrow>
      unsentQueue (tryResendFromQueue st) = rest \<and>
      outbox (tryResendFromQueue st) = outbox st @ [msg]) \<and>
   (unsentQueue st = msg # rest \<and> \<not> canSend st msg \<longrightarrow>
      tryResendFromQueue st = st\<lparr>unsentQueue := rest @ [msg]\<rparr>) \<and>
   (writable st \<and> handshake st \<longrightarrow>
      unsentQueue ((tryResendFromQueue ^^ n) st) = drop n (unsentQueue st) \<and>
      outbox ((tryResendFromQueue ^^ n) st) = outbox st @ take n (unsentQueue st)) \<and>
   (\<not> writable st \<longrightarrow>
      fold (\<lambda>m s. snd (sendMessage m s)) msgs st = st\<lparr>unsentQueue := unsentQueue st @ msgs\<rparr>) \<and>
   mset (unsentQueue (tryResendFromQueue st)) + mset (outbox (tryResendFromQueue st)) =
     mset (unsentQueue st) + mset (outbox st)"
proof -
  have a: "intervals st h = Some period \<longrightarrow> intervalFires h st = tryResendFromQueue st"
    by (simp add: intervalFires_def)
  have b: "unsentQueue st = [] \<longrightarrow> tryResendFromQueue st = st"
    by (simp add: tryResend_empty)
  have c: "unsentQueue st = msg # rest \<and> canSend st msg \<longrightarrow>
      unsentQueue (tryResendFromQueue st) = rest \<and>
      outbox (tryResendFromQueue st) = outbox st @ [msg]"
    using tryResend_sent(1,2)[of st msg rest] by simp
  have d: "unsentQueue st = msg # rest \<and> \<not> canSend st msg \<longrightarrow>
      tryResendFromQueue st = st\<lparr>unsentQueue := rest @ [msg]\<rparr>"
    using tryResend_requeued[of st msg rest] by simp
  have e: "writable st \<and> handshake st \<longrightarrow>
      unsentQueue ((tryResendFromQueue ^^ n) st) = drop n (unsentQueue st) \<and>
      outbox ((tryResendFromQueue ^^ n) st) = outbox st @ take n (unsentQueue st)"
    using ticks_deliver_in_order[of st n] by simp
  have f: "\<not> writable st \<longrightarrow>
      fold (\<lambda>m s. snd (sendMessage m s)) msgs st = st\<lparr>unsentQueue := unsentQueue st @ msgs\<rparr>"
    using failed_sends_queue_in_order[of st msgs] by simp
  show ?thesis using a b c d e f tryResend_conserves[of st] by (intro conjI)
qed

theorem resend_queue_fifo_witness:
  "(intervals recoveredState (Suc 0) = Some 500 \<and>
      intervalFires (Suc 0) recoveredState = tryResendFromQueue recoveredState) \<and>
   (unsentQueue shakenState = [] \<and> tryResendFromQueue shakenState = shakenState) \<and>
   (unsentQueue recoveredState = [pong0, helloBack0] \<and> canSend recoveredState pong0 \<and>
      unsentQueue (tryResendFromQueue recoveredState) = [helloBack0] \<and>
      outbox (tryResendFromQueue recoveredState) = outbox recoveredState @ [pong0]) \<and>
   (unsentQueue backlogState = [pong0, helloBack0] \<and> \<not> canSend backlogState pong0 \<and>
      tryResendFromQueue backlogState = backlogState\<lparr>unsentQueue := [helloBack0, pong0]\<rparr>) \<and>
   (writable recoveredState \<and> handshake recoveredState \<and>
      unsentQueue ((tryResendFromQueue ^^ 2) recoveredState) = [] \<and>
      outbox ((tryResendFromQueue ^^ 2) recoveredState) =
        outbox recoveredState @ [pong0, helloBack0]) \<and>
   (\<not> writable faultyState \<and>
      fold (\<lambda>m s. snd (sendMessage m s)) [pong0, helloBack0] faultyState =
        faultyState\<lparr>unsentQueue := [pong0, helloBack0]\<rparr>)"
proof -
  have i: "intervals recoveredState (Suc 0) = Some 500"
    by (simp add: recoveredState_def backlogState_eq example_states)
  have cs: "canSend recoveredState pong0"
    by (simp add: canSend_def recoveredState_facts)
  have cb: "\<not> canSend backlogState pong0"
    by (simp add: canSend_def backlogState_eq writable_def example_states)
  have q: "unsentQueue backlogState = [pong0, helloBack0]"
    by (simp add: backlogState_eq)
  from resend_queue_fifo[of recoveredState "Suc 0" 500 pong0 "[helloBack0]" 2 "[]"]
    resend_queue_fifo[of shakenState "Suc 0" 500 pong0 "[]" 0 "[]"]
    resend_queue_fifo[of backlogState "Suc 0" 500 pong0 "[helloBack0]" 0 "[]"]
    resend_queue_fifo[of faultyState "Suc 0" 500 pong0 "[]" 0 "[pong0, helloBack0]"]
  show ?thesis
    by (simp add: i cs cb q recoveredState_facts example_queue example_writable)
qed

section \<open>The announce field of a redeem message\<close>

text \<open>
  C10. The Redeem message that \<^verbatim>\<open>redeem\<close> registers and sends carries in \<open>announce\<close>
  the number of the catalog item's \<^verbatim>\<open>AnnounceType\<close> when the item has one, so
  \<^verbatim>\<open>DefaultAnnounce\<close> gives the number 0, which is falsy and no boolean; it carries the
  boolean true exactly when the item has no announce field.
\<close>

theorem redeem_announce_verbatim:
  assumes "transactionId \<noteq> []" and "outstandingRedeems st transactionId = None"
    and "redeem r cart usr transactionId st = (c, st')"
    and "msg = redeemMessage r cart usr transactionId (now st)"
  shows "outstandingRedeems st' transactionId = Some msg \<and>
         (if writable st \<and> handshake st
          then outbox st' = outbox st @ [msg] else unsentQueue st' = unsentQueue st @ [msg]) \<and>
         (case Redeem_announce r of
            None \<Rightarrow> announce msg = JSBoolean True
          | Some a \<Rightarrow> announce msg = JSNumber (AnnounceType_value a)) \<and>
         (Redeem_announce r = Some DefaultAnnounce \<longrightarrow>
            announce msg = JSNumber 0 \<and> falsy (announce msg) \<and> \<not> isBoolean (announce msg)) \<and>
         (isBoolean (announce msg) \<longleftrightarrow> Redeem_announce r = None)"
proof -
  let ?msg = "redeemMessage r cart usr transactionId (now st)"
  let ?st3 = "st\<lparr>calls := (calls st)(c := \<lparr>handlerPromise = Pending, racePromise = Pending\<rparr>),
                nextCall := Suc c,
                redeemTimeouts := (redeemTimeouts st)(c \<mapsto> now st + resultWaitTimeout),
                uuidCount := Suc (uuidCount st),
                outstandingRedeems := (outstandingRedeems st)(transactionId \<mapsto> ?msg),
                resultHandlers := (resultHandlers st)(transactionId \<mapsto> c)\<rparr>"
  have eq: "st' = snd (sendMessage ?msg ?st3)"
    using redeem_registered(2)[OF assms(1,2,3) refl] .
  have reg: "outstandingRedeems st' transactionId = Some ?msg"
    by (simp add: eq)
  have w: "writable ?st3 = writable st" and o: "outbox ?st3 = outbox st"
    and ty: "messageType (base ?msg) \<noteq> Pong"
    by (simp_all add: writable_def outbox_def redeemMessage_def)
  have sent: "if writable st \<and> handshake st
            then outbox st' = outbox st @ [?msg] else unsentQueue st' = unsentQueue st @ [?msg]"
  proof (cases "writable st \<and> handshake st")
    case True
    then have "writable ?st3" and "handshake ?st3 \<or> messageType (base ?msg) = Pong"
      using w by simp_all
    from sendMessage_written(3)[OF this] True o show ?thesis by (simp add: eq)
  next
    case False
    then have "\<not> (writable ?st3 \<and> (handshake ?st3 \<or> messageType (base ?msg) = Pong))"
      using w ty by simp
    from sendMessage_queued(2)[OF this]
    have q: "unsentQueue (snd (sendMessage ?msg ?st3)) = unsentQueue st @ [?msg]" by simp
    show ?thesis unfolding if_not_P[OF False] eq by (rule q)
  qed
  have ann: "(case Redeem_announce r of
              None \<Rightarrow> announce ?msg = JSBoolean True
            | Some a \<Rightarrow> announce ?msg = JSNumber (AnnounceType_value a))"
    by (simp add: redeemMessage_def split: option.splits)
  have zero: "Redeem_announce r = Some DefaultAnnounce \<longrightarrow>
              announce ?msg = JSNumber 0 \<and> falsy (announce ?msg) \<and> \<not> isBoolean (announce ?msg)"
    by (simp add: redeemMessage_def)
  have bool: "isBoolean (announce ?msg) \<longleftrightarrow> Redeem_announce r = None"
    by (simp add: redeemMessage_def split: option.splits)
  show ?thesis unfolding assms(4) by (intro conjI; fact)
qed

theorem redeem_announce_verbatim_witness:
  "''tx-1'' \<noteq> [] \<and> outstandingRedeems shakenState ''tx-1'' = None \<and>
   Redeem_announce exampleRedeem = Some DefaultAnnounce \<and>
   outstandingRedeems (snd (redeem exampleRedeem exampleCart exampleUser ''tx-1'' shakenState))
       ''tx-1'' =
     Some (RedeemMessage \<lparr>messageType = Redeem, guid = ''tx-1'', timestamp = 0\<rparr> Swarm
             ''spawn'' ''Spawn'' (JSNumber 0) [(''what'', ''duck'')] (TwitchUser ''user-7'')) \<and>
   falsy (JSNumber 0) \<and> \<not> isBoolean (JSNumber 0) \<and>
   outstandingRedeems
       (snd (redeem (exampleRedeem\<lparr>Redeem_announce := None\<rparr>) exampleCart exampleUser ''tx-1''
          shakenState)) ''tx-1'' =
     Some (RedeemMessage \<lparr>messageType = Redeem, guid = ''tx-1'', timestamp = 0\<rparr> Swarm
             ''spawn'' ''Spawn'' (JSBoolean True) [(''what'', ''duck'')] (TwitchUser ''user-7''))"
proof -
  have ne: "''tx-1'' \<noteq> []" by simp
  have fresh: "outstandingRedeems shakenState ''tx-1'' = None" and n: "now shakenState = 0"
    by (simp_all add: example_states)
  from redeem_announce_verbatim[OF ne fresh prod.collapse[symmetric] refl,
      of exampleRedeem exampleCart exampleUser]
    redeem_announce_verbatim[OF ne fresh prod.collapse[symmetric] refl,
      of "exampleRedeem\<lparr>Redeem_announce := None\<rparr>" exampleCart exampleUser]
    ne fresh n
  show ?thesis
    by (simp add: redeemMessage_def exampleRedeem_def exampleCart_def exampleUser_def)
qed

section \<open>Binding and closing the socket\<close>

lemma setSocket_None:
  "setSocket None st =
     (if isConnected st then closeSocket (the (socket st)) st else st)\<lparr>socket := None\<rparr>"
  by (simp add: setSocket_def Let_def)

lemma setSocket_Some:
  "setSocket (Some w) st =
     (if isConnected st then closeSocket (the (socket st)) st else st)
       \<lparr>socket := Some w, handshake := False,
        intervals := (intervals st)(Suc (timerCount st) \<mapsto> resendInterval),
        timerCount := Suc (timerCount st),
        resendIntervalHandle := Some (Suc (timerCount st)),
        listeners := (listeners st)(w := Suc (listeners st w))\<rparr>"
  by (simp add: setSocket_def setInterval_def closeSocket_def Let_def)

lemma closeSocket_sockets:
  "sockets (if isConnected st then closeSocket (the (socket st)) st else st) p =
     (if socket st = Some p \<and> readyState (sockets st p) = OPEN
      then (sockets st p)\<lparr>readyState := CLOSING\<rparr> else sockets st p)"
  by (cases "socket st") (auto simp: isConnected_def closeSocket_def)

lemma setSocket_sockets:
  "sockets (setSocket ws st) p =
     (if socket st = Some p \<and> readyState (sockets st p) = OPEN
      then (sockets st p)\<lparr>readyState := CLOSING\<rparr> else sockets st p)"
  using closeSocket_sockets[of st p]
  by (cases ws) (simp_all add: setSocket_None setSocket_Some)

lemma socketOnClose_eq:
  "socketOnClose st =
     st\<lparr>ingameCalls := ingameCalls st @ [False],
        intervals := cleared (resendIntervalHandle st) (intervals st)\<rparr>"
  by (cases "resendIntervalHandle st")
    (simp_all add: socketOnClose_def setIngame_def clearInterval_def Let_def)

lemma cleared_twice: "cleared h (cleared h timers) = cleared h timers"
  by (cases h) simp_all

lemma socketOnClose_funpow:
  "(socketOnClose ^^ Suc n) st =
     st\<lparr>ingameCalls := ingameCalls st @ replicate (Suc n) False,
        intervals := cleared (resendIntervalHandle st) (intervals st)\<rparr>"
proof (induction n)
  case 0
  show ?case by (simp add: socketOnClose_eq)
next
  case (Suc n)
  have "(socketOnClose ^^ Suc (Suc n)) st = socketOnClose ((socketOnClose ^^ Suc n) st)"
    by simp
  also have "\<dots> = st\<lparr>ingameCalls := ingameCalls st @ replicate (Suc (Suc n)) False,
        intervals := cleared (resendIntervalHandle st) (intervals st)\<rparr>"
    unfolding Suc.IH
    by (simp add: socketOnClose_eq cleared_twice replicate_append_same)
  finally show ?case .
qed

lemma socketCloses_eq:
  "socketCloses ws st =
     (case listeners st ws of
        0 \<Rightarrow> st\<lparr>sockets := (sockets st)(ws := (sockets st ws)\<lparr>readyState := CLOSED\<rparr>)\<rparr>
      | Suc n \<Rightarrow>
          st\<lparr>sockets := (sockets st)(ws := (sockets st ws)\<lparr>readyState := CLOSED\<rparr>),
             ingameCalls := ingameCalls st @ replicate (Suc n) False,
             intervals := cleared (resendIntervalHandle st) (intervals st)\<rparr>)"
proof (cases "listeners st ws")
  case 0
  then show ?thesis by (simp add: socketCloses_def)
next
  case (Suc n)
  show ?thesis
    unfolding socketCloses_def Suc socketOnClose_funpow by simp
qed

text \<open>
  C8, as the claim states it, fails: the handler of the \<^verbatim>\<open>close\<close> event does not touch
  the handshake. After socket 0 was bound and the handshake done, the close of socket 0
  leaves the handshake true.
\<close>

theorem close_keeps_handshake_counterexample:
  "socket shakenState = Some 0 \<and> handshake shakenState \<and>
   handshake (socketCloses 0 shakenState)"
  by (simp add: socketCloses_eq example_states)

lemma socketCloses_effects:
  assumes "st' = socketCloses ws st"
  shows "readyState (sockets st' ws) = CLOSED \<and>
         ingameCalls st' = ingameCalls st @ replicate (listeners st ws) False \<and>
         handshake st' = handshake st \<and>
         (\<forall>h. listeners st ws \<noteq> 0 \<and> resendIntervalHandle st = Some h \<and> h \<noteq> 0 \<longrightarrow>
            intervals st' h = None \<and> intervalFires h st' = st') \<and>
         socket st' = socket st \<and> resendIntervalHandle st' = resendIntervalHandle st \<and>
         listeners st' = listeners st \<and> unsentQueue st' = unsentQueue st"
  unfolding assms socketCloses_eq
  by (cases "listeners st ws") (auto simp: intervalFires_def)

lemma binding_redeem:
  "resendIntervalHandle (snd (redeem r cart usr g st)) = resendIntervalHandle st \<and>
   listeners (snd (redeem r cart usr g st)) = listeners st"
proof (cases "g = []")
  case True
  from redeem_missing(2)[OF prod.collapse[symmetric], of r cart usr st]
  show ?thesis unfolding True by simp
next
  case False
  show ?thesis
  proof (cases "outstandingRedeems st g")
    case None
    from redeem_registered(2)[OF False None prod.collapse[symmetric] refl, of r cart usr]
    show ?thesis by simp
  next
    case (Some m)
    then have d: "outstandingRedeems st g \<noteq> None" by simp
    from redeem_duplicate(2)[OF False d prod.collapse[symmetric], of r cart usr]
    show ?thesis by simp
  qed
qed

lemma binding_processMessage:
  "resendIntervalHandle (processMessage m st) = resendIntervalHandle st \<and>
   listeners (processMessage m st) = listeners st"
proof (cases m)
  case (HelloMessage g t version)
  show ?thesis unfolding HelloMessage by (simp add: makeMessage_def uuid_def Let_def)
next
  case (PingMessage g t)
  show ?thesis unfolding PingMessage by (simp add: makeMessage_def uuid_def Let_def)
next
  case (ResultMessage g t success payload)
  show ?thesis
    unfolding ResultMessage
    by (simp add: resolve_def settleHandlerPromise_def Let_def
        split: option.splits PromiseState.splits)
next
  case (IngameStateChangedMessage g t b)
  show ?thesis unfolding IngameStateChangedMessage by (simp add: setIngame_def)
next
  case (UnknownMessage ty g t)
  show ?thesis unfolding UnknownMessage by simp
qed

lemma binding_step:
  assumes "\<not> isBind e"
  shows "resendIntervalHandle (step e st) = resendIntervalHandle st \<and>
         listeners (step e st) = listeners st"
proof (cases e)
  case (SetSocket ws)
  then have "ws = None" using assms by (cases ws) simp_all
  then show ?thesis unfolding SetSocket by (simp add: setSocket_None closeSocket_def)
next
  case (Receive m)
  show ?thesis unfolding Receive step.simps by (rule binding_processMessage)
next
  case (SendMessage m)
  show ?thesis unfolding SendMessage by simp
next
  case (SubmitRedeem r cart usr g)
  show ?thesis unfolding SubmitRedeem step.simps by (rule binding_redeem)
next
  case (StressTestSetHandshake b)
  show ?thesis unfolding StressTestSetHandshake by (simp add: stressTestSetHandshake_def)
next
  case (SocketClose ws)
  show ?thesis unfolding SocketClose step.simps using socketCloses_effects[OF refl] by blast
next
  case (IntervalFires h)
  show ?thesis
    unfolding IntervalFires
    by (cases "unsentQueue st")
      (simp_all add: intervalFires_def tryResendFromQueue_def split: option.splits)
next
  case (TimeoutFires c)
  show ?thesis unfolding TimeoutFires by (simp add: timeoutFires_def split: option.splits)
next
  case (Elapse d)
  show ?thesis unfolding Elapse by simp
next
  case (Transport ws rs fault)
  show ?thesis unfolding Transport by simp
qed

lemma binding_run:
  assumes "\<forall>e \<in> set es. \<not> isBind e"
  shows "resendIntervalHandle (run es st) = resendIntervalHandle st \<and>
         listeners (run es st) = listeners st"
  using assms unfolding run_def
  by (induction es arbitrary: st) (simp_all add: binding_step)

text \<open>
  C8, amended. A socket is bound; then any events happen, none of them the binding of
  a socket; then the socket's \<^verbatim>\<open>close\<close> event is handled. After it,
  \<^verbatim>\<open>setIngame(false)\<close> has been called (once for every time the socket was bound, this
  binding included, and with no other argument) and the resend timer that the binding
  started is stopped, so that its ticks do nothing from then on; the handshake is as it
  was before the close (only the binding of the next socket resets it), and so is the
  resend queue.
\<close>

theorem socket_close_effects:
  assumes "st1 = setSocket (Some ws) st0"
    and "\<forall>e \<in> set es. \<not> isBind e" and "st = run es st1"
    and "st' = socketCloses ws st"
    and "h = Suc (timerCount st0)"
  shows "resendIntervalHandle st1 = Some h \<and> intervals st1 h = Some resendInterval \<and>
         listeners st ws = Suc (listeners st0 ws) \<and>
         readyState (sockets st' ws) = CLOSED \<and>
         ingameCalls st' = ingameCalls st @ replicate (Suc (listeners st0 ws)) False \<and>
         intervals st' h = None \<and> intervalFires h st' = st' \<and>
         handshake st' = handshake st \<and> unsentQueue st' = unsentQueue st"
proof -
  have h1: "resendIntervalHandle st1 = Some h" "intervals st1 h = Some resendInterval"
    "listeners st1 ws = Suc (listeners st0 ws)"
    unfolding assms(1,5) by (simp_all add: setSocket_Some)
  have k: "resendIntervalHandle st = Some h" "listeners st ws = Suc (listeners st0 ws)"
    unfolding assms(3) using binding_run[OF assms(2), of st1] h1 by simp_all
  have nz: "h \<noteq> 0" "listeners st ws \<noteq> 0" unfolding assms(5) k(2) by simp_all
  from socketCloses_effects[OF assms(4)] k nz
  have "readyState (sockets st' ws) = CLOSED"
    and "ingameCalls st' = ingameCalls st @ replicate (Suc (listeners st0 ws)) False"
    and "intervals st' h = None" and "intervalFires h st' = st'"
    and "handshake st' = handshake st" and "unsentQueue st' = unsentQueue st"
    by simp_all
  then show ?thesis using h1(1,2) k(2) by simp
qed

theorem socket_close_effects_witness:
  "run [Receive (HelloMessage ''hello-1'' 0 ''0.1.0'')] (setSocket (Some 0) initialState) =
     shakenState \<and>
   \<not> isBind (Receive (HelloMessage ''hello-1'' 0 ''0.1.0'')) \<and>
   resendIntervalHandle (setSocket (Some 0) initialState) = Some 1 \<and>
   intervals (setSocket (Some 0) initialState) 1 = Some 500 \<and>
   listeners initialState 0 = 0 \<and> listeners shakenState 0 = 1 \<and>
   readyState (sockets (socketCloses 0 shakenState) 0) = CLOSED \<and>
   ingameCalls (socketCloses 0 shakenState) = [False] \<and>
   intervals (socketCloses 0 shakenState) 1 = None \<and>
   intervalFires 1 (socketCloses 0 shakenState) = socketCloses 0 shakenState \<and>
   handshake (socketCloses 0 shakenState) = handshake shakenState \<and>
   handshake shakenState \<and>
   ingameCalls (socketCloses 0 (setSocket (Some 0) boundState)) = [False, False] \<and>
   intervals (socketCloses 0 (setSocket (Some 0) boundState)) 2 = None"
proof -
  let ?es = "[Receive (HelloMessage ''hello-1'' 0 ''0.1.0'')]"
  have r: "run ?es (setSocket (Some 0) initialState) = shakenState"
    by (simp add: run_def shakenState_def boundState_def del: processMessage.simps)
  have r2: "setSocket (Some 0) boundState = run [] (setSocket (Some 0) boundState)"
    by (simp add: run_def)
  have nb: "\<forall>e \<in> set ?es. \<not> isBind e" and nb2: "\<forall>e \<in> set []. \<not> isBind e" by simp_all
  have f: "timerCount initialState = 0" "ingameCalls shakenState = []" "handshake shakenState"
    "listeners initialState 0 = 0" "timerCount boundState = 1" "listeners boundState 0 = 1"
    "ingameCalls (setSocket (Some 0) boundState) = []"
    by (simp_all add: example_states setSocket_Some closeSocket_def)
  from socket_close_effects[OF refl nb r[symmetric] refl refl]
    socket_close_effects[OF refl nb2 r2 refl refl] r f
  show ?thesis by (simp add: resendInterval_def numeral_2_eq_2)
qed

text \<open>
  Why the events between the binding and the close must not bind a socket: the handler
  clears the handle that is stored when it runs. After socket 1 was bound in place of
  socket 0, the close of socket 0 stops the timer of the new binding (handle 2) and leaves
  the timer of its own binding (handle 1) running, socket 1 still bound.
\<close>

lemma close_of_replaced_socket:
  "readyState (sockets reboundState 0) = CLOSING \<and> socket reboundState = Some 1 \<and>
   resendIntervalHandle reboundState = Some 2 \<and>
   intervals reboundState 1 = Some 500 \<and> intervals reboundState 2 = Some 500 \<and>
   socket (socketCloses 0 reboundState) = Some 1 \<and>
   intervals (socketCloses 0 reboundState) 1 = Some 500 \<and>
   intervals (socketCloses 0 reboundState) 2 = None"
  by (simp add: reboundState_def socketCloses_eq setSocket_Some closeSocket_def isConnected_def
      resendInterval_def example_states numeral_2_eq_2)

text \<open>
  C9, as the claim states it, fails: binding null does not stop the resend timer. After
  socket 0 was bound, \<^verbatim>\<open>setSocket(null)\<close> leaves the timer of that binding running, and
  its next tick still runs \<^verbatim>\<open>tryResendFromQueue\<close>.
\<close>

theorem bind_null_keeps_timer_counterexample:
  "resendIntervalHandle boundState = Some 1 \<and> intervals boundState 1 = Some 500 \<and>
   socket (setSocket None boundState) = None \<and>
   intervals (setSocket None boundState) 1 = Some 500 \<and>
   intervalFires 1 (setSocket None boundState) = tryResendFromQueue (setSocket None boundState)"
  by (simp add: setSocket_None intervalFires_def isConnected_def closeSocket_def example_states)

text \<open>
  C9, amended. \<^verbatim>\<open>setSocket\<close> first closes the previously bound socket if that socket
  is open, and touches no other socket. Binding a socket then makes it the bound socket,
  resets the handshake to false and starts a new resend timer of period 500, whose handle
  the connection stores; the timers that ran before keep running. Binding null leaves the
  connection without a socket and changes neither the timers nor the stored handle nor
  the handshake: the timer stops only when a \<^verbatim>\<open>close\<close> event is handled.
\<close>

theorem setSocket_effects:
  "(st' = setSocket (Some w) st \<longrightarrow>
      socket st' = Some w \<and> \<not> handshake st' \<and>
      resendIntervalHandle st' = Some (Suc (timerCount st)) \<and>
      intervals st' (Suc (timerCount st)) = Some 500 \<and>
      (\<forall>h. h \<noteq> Suc (timerCount st) \<longrightarrow> intervals st' h = intervals st h)) \<and>
   (st'' = setSocket None st \<longrightarrow>
      socket st'' = None \<and> intervals st'' = intervals st \<and>
      resendIntervalHandle st'' = resendIntervalHandle st \<and> handshake st'' = handshake st) \<and>
   (\<forall>p. socket st = Some p \<and> readyState (sockets st p) = OPEN \<longrightarrow>
      readyState (sockets (setSocket ws st) p) = CLOSING) \<and>
   (\<forall>p. \<not> (socket st = Some p \<and> readyState (sockets st p) = OPEN) \<longrightarrow>
      sockets (setSocket ws st) p = sockets st p)"
proof -
  have a: "st' = setSocket (Some w) st \<longrightarrow>
      socket st' = Some w \<and> \<not> handshake st' \<and>
      resendIntervalHandle st' = Some (Suc (timerCount st)) \<and>
      intervals st' (Suc (timerCount st)) = Some 500 \<and>
      (\<forall>h. h \<noteq> Suc (timerCount st) \<longrightarrow> intervals st' h = intervals st h)"
    by (simp add: setSocket_Some resendInterval_def)
  have b: "st'' = setSocket None st \<longrightarrow>
      socket st'' = None \<and> intervals st'' = intervals st \<and>
      resendIntervalHandle st'' = resendIntervalHandle st \<and> handshake st'' = handshake st"
    by (simp add: setSocket_None closeSocket_def)
  have c: "\<forall>p. socket st = Some p \<and> readyState (sockets st p) = OPEN \<longrightarrow>
      readyState (sockets (setSocket ws st) p) = CLOSING"
    by (simp add: setSocket_sockets)
  have d: "\<forall>p. \<not> (socket st = Some p \<and> readyState (sockets st p) = OPEN) \<longrightarrow>
      sockets (setSocket ws st) p = sockets st p"
    by (simp add: setSocket_sockets)
  show ?thesis using a b c d by (intro conjI)
qed

theorem setSocket_effects_witness:
  "(socket (setSocket (Some 1) shakenState) = Some 1 \<and>
    handshake shakenState \<and> \<not> handshake (setSocket (Some 1) shakenState) \<and>
    resendIntervalHandle (setSocket (Some 1) shakenState) = Some 2 \<and>
    intervals (setSocket (Some 1) shakenState) 2 = Some 500 \<and>
    intervals (setSocket (Some 1) shakenState) 1 = Some 500) \<and>
   (socket (setSocket None shakenState) = None \<and>
    intervals (setSocket None shakenState) = intervals shakenState \<and>
    handshake (setSocket None shakenState)) \<and>
   (socket shakenState = Some 0 \<and> readyState (sockets shakenState 0) = OPEN \<and>
    readyState (sockets (setSocket (Some 1) shakenState) 0) = CLOSING \<and>
    readyState (sockets (setSocket None shakenState) 0) = CLOSING) \<and>
   sockets (setSocket (Some 1) shakenState) 1 = sockets shakenState 1"
proof -
  have f: "socket shakenState = Some 0" "readyState (sockets shakenState 0) = OPEN"
    "timerCount shakenState = 1" "intervals shakenState 1 = Some 500" "handshake shakenState"
    by (simp_all add: example_states)
  from setSocket_effects[of "setSocket (Some 1) shakenState" 1 shakenState
      "setSocket None shakenState" "Some 1"]
    setSocket_effects[of "setSocket (Some 1) shakenState" 1 shakenState
      "setSocket None shakenState" None] f
  show ?thesis by (auto simp: numeral_2_eq_2)
qed

section \<open>Timeout of a redeem\<close>

lemma awaiting_frame:
  "awaiting transactionId c msg due st \<Longrightarrow> correlation st' = correlation st \<Longrightarrow>
   awaiting transactionId c msg due st'"
  by (simp add: correlation_def awaiting_def handlersAllocated_def)

lemma handlersAllocated_frame:
  "handlersAllocated st \<Longrightarrow> correlation st' = correlation st \<Longrightarrow> handlersAllocated st'"
  by (simp add: correlation_def handlersAllocated_def)

lemma correlation_sendMessage [simp]:
  "correlation (snd (sendMessage msg st)) = correlation st"
  by (simp add: correlation_def)

lemma correlation_tryResend [simp]: "correlation (tryResendFromQueue st) = correlation st"
  by (cases "unsentQueue st") (simp_all add: tryResendFromQueue_def, simp add: correlation_def)

lemma correlation_intervalFires [simp]: "correlation (intervalFires h st) = correlation st"
  by (simp add: intervalFires_def split: option.splits)

lemma correlation_setSocket [simp]: "correlation (setSocket ws st) = correlation st"
  by (cases ws)
    (simp_all add: setSocket_None setSocket_Some correlation_def closeSocket_def)

lemma correlation_socketCloses [simp]: "correlation (socketCloses ws st) = correlation st"
  by (cases "listeners st ws") (simp_all add: socketCloses_eq correlation_def)

lemma correlation_processMessage:
  assumes "\<forall>g t success payload. m \<noteq> ResultMessage g t success payload"
  shows "correlation (processMessage m st) = correlation st"
proof (cases m)
  case (HelloMessage g t version)
  show ?thesis
    unfolding HelloMessage
    by (simp add: makeMessage_def uuid_def Let_def) (simp add: correlation_def)
next
  case (PingMessage g t)
  show ?thesis
    unfolding PingMessage
    by (simp add: makeMessage_def uuid_def Let_def) (simp add: correlation_def)
next
  case (ResultMessage g t success payload)
  then show ?thesis using assms by blast
next
  case (IngameStateChangedMessage g t b)
  show ?thesis unfolding IngameStateChangedMessage by (simp add: correlation_def setIngame_def)
next
  case (UnknownMessage ty g t)
  show ?thesis unfolding UnknownMessage by simp
qed

lemma correlation_step:
  assumes "\<forall>g t success payload. e \<noteq> Receive (ResultMessage g t success payload)"
    and "\<forall>r cart usr g. e \<noteq> SubmitRedeem r cart usr g"
    and "\<forall>c. e \<noteq> TimeoutFires c"
  shows "correlation (step e st) = correlation st"
proof (cases e)
  case (Receive m)
  then have "\<forall>g t success payload. m \<noteq> ResultMessage g t success payload"
    using assms(1) by simp
  from correlation_processMessage[OF this] show ?thesis
    unfolding Receive step.simps .
next
  case (SubmitRedeem r cart usr g)
  then show ?thesis using assms(2) by simp
next
  case (TimeoutFires c)
  then show ?thesis using assms(3) by simp
qed (simp_all, simp_all add: correlation_def stressTestSetHandshake_def)

lemma processMessage_Result:
  "processMessage (ResultMessage g t success payload) st =
     (case resultHandlers st g of
        None \<Rightarrow> st\<lparr>outstandingRedeems := (outstandingRedeems st)(g := None),
                   resultHandlers := (resultHandlers st)(g := None)\<rparr>
      | Some c \<Rightarrow>
          (case handlerPromise (calls st c) of
             Pending \<Rightarrow>
               st\<lparr>calls := (calls st)(c :=
                     \<lparr>handlerPromise = Fulfilled (ResultMessage g t success payload),
                      racePromise = settle (racePromise (calls st c))
                        (Fulfilled (ResultMessage g t success payload))\<rparr>),
                  outstandingRedeems := (outstandingRedeems st)(g := None),
                  resultHandlers := (resultHandlers st)(g := None)\<rparr>
           | Fulfilled v \<Rightarrow>
               st\<lparr>outstandingRedeems := (outstandingRedeems st)(g := None),
                  resultHandlers := (resultHandlers st)(g := None)\<rparr>
           | Rejected e \<Rightarrow>
               st\<lparr>outstandingRedeems := (outstandingRedeems st)(g := None),
                  resultHandlers := (resultHandlers st)(g := None)\<rparr>))"
  by (simp add: resolve_def settleHandlerPromise_def Let_def
      split: option.splits PromiseState.splits)

lemma awaiting_Result_other:
  assumes "awaiting transactionId c msg due st" and "g \<noteq> transactionId"
  shows "awaiting transactionId c msg due (processMessage (ResultMessage g t success payload) st)"
proof (cases "resultHandlers st g")
  case None
  then show ?thesis
    using assms unfolding processMessage_Result
    by (simp add: awaiting_def handlersAllocated_def)
next
  case (Some c')
  have ne: "c' \<noteq> c"
  proof
    assume "c' = c"
    with Some assms show False by (simp add: awaiting_def)
  qed
  show ?thesis
    using assms Some ne unfolding processMessage_Result
    by (cases "handlerPromise (calls st c')")
      (simp_all add: awaiting_def handlersAllocated_def)
qed

lemma redeem_correlation:
  assumes "redeem r cart usr g st = (n, st')"
  shows "n = nextCall st"
    and "g \<noteq> [] \<and> outstandingRedeems st g = None \<Longrightarrow>
      correlation st' =
        ((outstandingRedeems st)(g \<mapsto> redeemMessage r cart usr g (now st)),
         (resultHandlers st)(g \<mapsto> n),
         (calls st)(n := \<lparr>handlerPromise = Pending, racePromise = Pending\<rparr>),
         Suc n, (redeemTimeouts st)(n \<mapsto> now st + resultWaitTimeout))"
    and "\<not> (g \<noteq> [] \<and> outstandingRedeems st g = None) \<Longrightarrow>
      correlation st' =
        (outstandingRedeems st, resultHandlers st,
         (calls st)(n :=
           \<lparr>handlerPromise =
              Rejected (if g = [] then MissingTransactionId else DuplicateRedeem g),
            racePromise =
              Rejected (if g = [] then MissingTransactionId else DuplicateRedeem g)\<rparr>),
         Suc n, (redeemTimeouts st)(n \<mapsto> now st + resultWaitTimeout))"
proof -
  show "n = nextCall st"
    using assms by (auto simp: redeem_def Let_def split: if_splits prod.splits)
  show "correlation st' =
        ((outstandingRedeems st)(g \<mapsto> redeemMessage r cart usr g (now st)),
         (resultHandlers st)(g \<mapsto> n),
         (calls st)(n := \<lparr>handlerPromise = Pending, racePromise = Pending\<rparr>),
         Suc n, (redeemTimeouts st)(n \<mapsto> now st + resultWaitTimeout))"
    if h: "g \<noteq> [] \<and> outstandingRedeems st g = None"
  proof -
    from h have a: "g \<noteq> []" and b: "outstandingRedeems st g = None" by simp_all
    note reg = redeem_registered[OF a b assms refl]
    show ?thesis by (simp add: reg(2) correlation_def)
  qed
  show "correlation st' =
        (outstandingRedeems st, resultHandlers st,
         (calls st)(n :=
           \<lparr>handlerPromise =
              Rejected (if g = [] then MissingTransactionId else DuplicateRedeem g),
            racePromise =
              Rejected (if g = [] then MissingTransactionId else DuplicateRedeem g)\<rparr>),
         Suc n, (redeemTimeouts st)(n \<mapsto> now st + resultWaitTimeout))"
    if h: "\<not> (g \<noteq> [] \<and> outstandingRedeems st g = None)"
  proof (cases "g = []")
    case True
    with assms have a: "redeem r cart usr [] st = (n, st')" by simp
    show ?thesis unfolding True by (simp add: redeem_missing(2)[OF a] correlation_def)
  next
    case False
    with h have d: "outstandingRedeems st g \<noteq> None" by simp
    show ?thesis using False by (simp add: redeem_duplicate(2)[OF False d assms] correlation_def)
  qed
qed

lemma awaiting_redeem:
  assumes "awaiting transactionId c msg due st"
  shows "awaiting transactionId c msg due (snd (redeem r cart usr g st))"
proof -
  let ?st' = "snd (redeem r cart usr g st)"
  note rc = redeem_correlation[where r = r and cart = cart and usr = usr and g = g and st = st,
      OF prod.collapse[symmetric], unfolded correlation_def prod.inject]
  from assms have lt: "c < nextCall st" by (simp add: awaiting_def)
  show ?thesis
  proof (cases "g \<noteq> [] \<and> outstandingRedeems st g = None")
    case True
    have ne: "g \<noteq> transactionId"
    proof
      assume "g = transactionId"
      with True assms show False by (simp add: awaiting_def)
    qed
    from rc(2)[OF True, unfolded rc(1)]
    have f: "outstandingRedeems ?st' =
          (outstandingRedeems st)(g \<mapsto> redeemMessage r cart usr g (now st))"
      "resultHandlers ?st' = (resultHandlers st)(g \<mapsto> nextCall st)"
      "calls ?st' =
          (calls st)(nextCall st := \<lparr>handlerPromise = Pending, racePromise = Pending\<rparr>)"
      "nextCall ?st' = Suc (nextCall st)"
      "redeemTimeouts ?st' = (redeemTimeouts st)(nextCall st \<mapsto> now st + resultWaitTimeout)"
      by simp_all
    show ?thesis
      using assms lt ne unfolding awaiting_def handlersAllocated_def f
      by (auto simp: less_Suc_eq)
  next
    case False
    from rc(3)[OF False, unfolded rc(1)]
    have f: "outstandingRedeems ?st' = outstandingRedeems st"
      "resultHandlers ?st' = resultHandlers st"
      "calls ?st' =
          (calls st)(nextCall st :=
            \<lparr>handlerPromise =
               Rejected (if g = [] then MissingTransactionId else DuplicateRedeem g),
             racePromise =
               Rejected (if g = [] then MissingTransactionId else DuplicateRedeem g)\<rparr>)"
      "nextCall ?st' = Suc (nextCall st)"
      "redeemTimeouts ?st' = (redeemTimeouts st)(nextCall st \<mapsto> now st + resultWaitTimeout)"
      by simp_all
    show ?thesis
      using assms lt unfolding awaiting_def handlersAllocated_def f
      by (auto simp: less_Suc_eq)
  qed
qed

lemma awaiting_timeoutFires:
  assumes "awaiting transactionId c msg due st"
  shows "awaiting transactionId c msg due (timeoutFires c' st)"
proof (cases "c' = c")
  case True
  show ?thesis
    using assms unfolding True
    by (cases "redeemTimeouts st c")
      (auto simp: timeoutFires_def awaiting_def handlersAllocated_def)
next
  case False
  show ?thesis
    using assms False
    by (cases "redeemTimeouts st c'")
      (auto simp: timeoutFires_def awaiting_def handlersAllocated_def)
qed

lemma awaiting_step:
  assumes "awaiting transactionId c msg due st" and "\<not> isResultFor transactionId e"
  shows "awaiting transactionId c msg due (step e st)"
proof (cases "(\<exists>g t success payload. e = Receive (ResultMessage g t success payload)) \<or>
    (\<exists>r cart usr g. e = SubmitRedeem r cart usr g) \<or> (\<exists>c'. e = TimeoutFires c')")
  case False
  then show ?thesis
    by (intro awaiting_frame[OF assms(1)] correlation_step) simp_all
next
  case True
  then consider (result) g t success payload where "e = Receive (ResultMessage g t success payload)"
    | (submit) r cart usr g where "e = SubmitRedeem r cart usr g"
    | (timeout) c' where "e = TimeoutFires c'"
    by blast
  then show ?thesis
  proof cases
    case result
    then have "g \<noteq> transactionId" using assms(2) by simp
    from awaiting_Result_other[OF assms(1) this] show ?thesis
      unfolding result step.simps .
  next
    case submit
    show ?thesis unfolding submit step.simps by (rule awaiting_redeem[OF assms(1)])
  next
    case timeout
    show ?thesis unfolding timeout step.simps by (rule awaiting_timeoutFires[OF assms(1)])
  qed
qed

lemma awaiting_run:
  assumes "awaiting transactionId c msg due st"
    and "\<forall>e \<in> set es. \<not> isResultFor transactionId e"
  shows "awaiting transactionId c msg due (run es st)"
  using assms unfolding run_def
  by (induction es arbitrary: st) (simp_all add: awaiting_step)

lemma awaiting_after_redeem:
  assumes "transactionId \<noteq> []" and "outstandingRedeems st transactionId = None"
    and "handlersAllocated st" and "redeem r cart usr transactionId st = (c, st1)"
  shows "awaiting transactionId c (redeemMessage r cart usr transactionId (now st))
           (now st + resultWaitTimeout) st1"
proof -
  note reg = redeem_registered[OF assms(1,2,4) refl]
  show ?thesis
    using assms(3) reg(1)
    by (auto simp: reg(2) awaiting_def handlersAllocated_def less_Suc_eq)
qed

lemma handlersAllocated_initialState: "handlersAllocated initialState"
  by (simp add: handlersAllocated_def initialState_def)

lemma handlersAllocated_step:
  assumes "handlersAllocated st"
  shows "handlersAllocated (step e st)"
proof (cases "(\<exists>g t success payload. e = Receive (ResultMessage g t success payload)) \<or>
    (\<exists>r cart usr g. e = SubmitRedeem r cart usr g) \<or> (\<exists>c'. e = TimeoutFires c')")
  case False
  then show ?thesis
    by (intro handlersAllocated_frame[OF assms] correlation_step) simp_all
next
  case True
  then consider (result) g t success payload where "e = Receive (ResultMessage g t success payload)"
    | (submit) r cart usr g where "e = SubmitRedeem r cart usr g"
    | (timeout) c' where "e = TimeoutFires c'"
    by blast
  then show ?thesis
  proof cases
    case result
    show ?thesis
      using assms unfolding result step.simps processMessage_Result
      by (auto simp: handlersAllocated_def split: option.splits PromiseState.splits)
  next
    case submit
    let ?st' = "snd (redeem r cart usr g st)"
    note rc = redeem_correlation[where r = r and cart = cart and usr = usr and g = g and st = st,
        OF prod.collapse[symmetric], unfolded correlation_def prod.inject]
    show ?thesis
    proof (cases "g \<noteq> [] \<and> outstandingRedeems st g = None")
      case True
      from rc(2)[OF True, unfolded rc(1)]
      have f: "resultHandlers ?st' = (resultHandlers st)(g \<mapsto> nextCall st)"
        "nextCall ?st' = Suc (nextCall st)"
        by simp_all
      show ?thesis
        using assms unfolding submit step.simps handlersAllocated_def f
        by (auto simp: less_Suc_eq)
    next
      case False
      from rc(3)[OF False, unfolded rc(1)]
      have f: "resultHandlers ?st' = resultHandlers st" "nextCall ?st' = Suc (nextCall st)"
        by simp_all
      show ?thesis
        using assms unfolding submit step.simps handlersAllocated_def f
        by (auto simp: less_Suc_eq)
    qed
  next
    case timeout
    show ?thesis
      using assms unfolding timeout step.simps
      by (cases "redeemTimeouts st c'") (auto simp: timeoutFires_def handlersAllocated_def)
  qed
qed

lemma handlersAllocated_run:
  "handlersAllocated st \<Longrightarrow> handlersAllocated (run es st)"
  unfolding run_def
  by (induction es arbitrary: st) (simp_all add: handlersAllocated_step)

lemma handlersAllocated_reachable:
  "resultHandlers st = Map.empty \<Longrightarrow> handlersAllocated (run es st)"
  by (rule handlersAllocated_run) (simp add: handlersAllocated_def)

text \<open>A race that is settled stays as it is, whatever happens next.\<close>

lemma settled_race_step:
  assumes "c < nextCall st" and "racePromise (calls st c) \<noteq> Pending"
  shows "c < nextCall (step e st) \<and> racePromise (calls (step e st) c) = racePromise (calls st c)"
proof (cases "(\<exists>g t success payload. e = Receive (ResultMessage g t success payload)) \<or>
    (\<exists>r cart usr g. e = SubmitRedeem r cart usr g) \<or> (\<exists>c'. e = TimeoutFires c')")
  case False
  then have "correlation (step e st) = correlation st"
    by (intro correlation_step) simp_all
  then show ?thesis using assms(1) by (simp add: correlation_def)
next
  case True
  then consider (result) g t success payload where "e = Receive (ResultMessage g t success payload)"
    | (submit) r cart usr g where "e = SubmitRedeem r cart usr g"
    | (timeout) c' where "e = TimeoutFires c'"
    by blast
  then show ?thesis
  proof cases
    case result
    show ?thesis
      using assms unfolding result step.simps processMessage_Result
      by (cases "racePromise (calls st c)")
        (auto split: option.splits PromiseState.splits)
  next
    case submit
    let ?st' = "snd (redeem r cart usr g st)"
    note rc = redeem_correlation[where r = r and cart = cart and usr = usr and g = g and st = st,
        OF prod.collapse[symmetric], unfolded correlation_def prod.inject]
    show ?thesis
    proof (cases "g \<noteq> [] \<and> outstandingRedeems st g = None")
      case True
      from rc(2)[OF True, unfolded rc(1)] assms(1)
      show ?thesis unfolding submit step.simps by simp
    next
      case False
      from rc(3)[OF False, unfolded rc(1)] assms(1)
      show ?thesis unfolding submit step.simps by simp
    qed
  next
    case timeout
    show ?thesis
      using assms unfolding timeout step.simps
      by (cases "redeemTimeouts st c'"; cases "racePromise (calls st c)")
        (auto simp: timeoutFires_def)
  qed
qed

lemma settled_race_run:
  assumes "c < nextCall st" and "racePromise (calls st c) \<noteq> Pending"
  shows "racePromise (calls (run es st) c) = racePromise (calls st c)"
  using assms unfolding run_def
proof (induction es arbitrary: st)
  case Nil
  show ?case by simp
next
  case (Cons e es)
  from settled_race_step[OF Cons.prems, of e]
  have a: "c < nextCall (step e st)"
    and b: "racePromise (calls (step e st) c) = racePromise (calls st c)" by simp_all
  from Cons.IH[OF a] b Cons.prems(2) show ?case by simp
qed

lemma timeoutFires_maps:
  "outstandingRedeems (timeoutFires c st) = outstandingRedeems st"
  "resultHandlers (timeoutFires c st) = resultHandlers st"
  "unsentQueue (timeoutFires c st) = unsentQueue st"
  by (simp_all add: timeoutFires_def split: option.splits)

lemma due_timeout_rejects:
  assumes "awaiting transactionId c msg due st" and "due \<le> now st"
  shows "racePromise (calls (timeoutFires c st) c) = Rejected Timeout"
proof (cases "racePromise (calls st c) = Pending")
  case True
  then have "redeemTimeouts st c = Some due" using assms(1) by (auto simp: awaiting_def)
  then show ?thesis using True assms(2) by (simp add: timeoutFires_def)
next
  case False
  then have "racePromise (calls st c) = Rejected Timeout"
    using assms(1) by (auto simp: awaiting_def)
  then show ?thesis
    by (cases "redeemTimeouts st c") (simp_all add: timeoutFires_def)
qed

text \<open>
  C2. A redeem is submitted under a non-empty id that has no outstanding record; then any
  events happen, none of them a Result with that guid. The timer of the call is set for
  \<open>resultWaitTimeout\<close> = 10000 after the submission, and once that time has passed and
  the timer has fired, the call is rejected with the timeout message. The firing changes
  neither map, and both entries of the id are still there after any further events without
  such a Result, the call still rejected. A late Result with that guid then removes the id
  from both maps and changes nothing else that can be observed: the call stays rejected
  with the timeout message (only the promise behind the handler, which nobody awaits any
  more, takes the late message).
\<close>

theorem timeout_rejects_and_keeps_entries:
  assumes "transactionId \<noteq> []" and "outstandingRedeems st transactionId = None"
    and "handlersAllocated st"
    and "redeem r cart usr transactionId st = (c, st1)"
    and "msg = redeemMessage r cart usr transactionId (now st)"
    and "\<forall>e \<in> set es. \<not> isResultFor transactionId e" and "st2 = run es st1"
    and "now st + resultWaitTimeout \<le> now st2"
    and "st3 = timeoutFires c st2"
    and "\<forall>e \<in> set es'. \<not> isResultFor transactionId e" and "st4 = run es' st3"
    and "late = ResultMessage transactionId t success payload"
    and "st5 = processMessage late st4"
  shows "resultWaitTimeout = 10000 \<and> redeemTimeouts st1 c = Some (now st + 10000) \<and>
         racePromise (calls st3 c) = Rejected Timeout \<and>
         outstandingRedeems st3 = outstandingRedeems st2 \<and>
         resultHandlers st3 = resultHandlers st2 \<and>
         outstandingRedeems st3 transactionId = Some msg \<and>
         resultHandlers st3 transactionId = Some c \<and>
         racePromise (calls st4 c) = Rejected Timeout \<and>
         outstandingRedeems st4 transactionId = Some msg \<and>
         resultHandlers st4 transactionId = Some c \<and>
         st5 = st4\<lparr>calls := (calls st4)(c :=
                       \<lparr>handlerPromise = Fulfilled late, racePromise = Rejected Timeout\<rparr>),
                    outstandingRedeems := (outstandingRedeems st4)(transactionId := None),
                    resultHandlers := (resultHandlers st4)(transactionId := None)\<rparr>"
proof -
  let ?due = "now st + resultWaitTimeout"
  note reg = redeem_registered[OF assms(1,2,4) refl]
  have t: "redeemTimeouts st1 c = Some (now st + 10000)"
    by (simp add: reg(2) resultWaitTimeout_def)
  have a1: "awaiting transactionId c msg ?due st1"
    unfolding assms(5) by (rule awaiting_after_redeem[OF assms(1,2,3,4)])
  have a2: "awaiting transactionId c msg ?due st2"
    unfolding assms(7) by (rule awaiting_run[OF a1 assms(6)])
  have r3: "racePromise (calls st3 c) = Rejected Timeout"
    unfolding assms(9) by (rule due_timeout_rejects[OF a2 assms(8)])
  have a3: "awaiting transactionId c msg ?due st3"
    unfolding assms(9) by (rule awaiting_timeoutFires[OF a2])
  have a4: "awaiting transactionId c msg ?due st4"
    unfolding assms(11) by (rule awaiting_run[OF a3 assms(10)])
  have lt3: "c < nextCall st3" using a3 by (simp add: awaiting_def)
  have r4: "racePromise (calls st4 c) = Rejected Timeout"
    unfolding assms(11) using settled_race_run[OF lt3, of es'] r3 by simp
  have e3: "outstandingRedeems st3 transactionId = Some msg"
    "resultHandlers st3 transactionId = Some c"
    using a3 by (simp_all add: awaiting_def)
  have e4: "outstandingRedeems st4 transactionId = Some msg"
    "resultHandlers st4 transactionId = Some c"
    "handlerPromise (calls st4 c) = Pending"
    using a4 by (simp_all add: awaiting_def)
  have s5: "st5 = st4\<lparr>calls := (calls st4)(c :=
                       \<lparr>handlerPromise = Fulfilled late, racePromise = Rejected Timeout\<rparr>),
                    outstandingRedeems := (outstandingRedeems st4)(transactionId := None),
                    resultHandlers := (resultHandlers st4)(transactionId := None)\<rparr>"
    unfolding assms(13) assms(12) processMessage_Result by (simp add: e4 r4)
  have m3: "outstandingRedeems st3 = outstandingRedeems st2"
    "resultHandlers st3 = resultHandlers st2"
    unfolding assms(9) by (rule timeoutFires_maps)+
  show ?thesis
    using t r3 m3 e3 r4 e4(1,2) s5 by (simp add: resultWaitTimeout_def)
qed

theorem timeout_rejects_and_keeps_entries_witness:
  "''tx-1'' \<noteq> [] \<and> outstandingRedeems shakenState ''tx-1'' = None \<and>
   handlersAllocated shakenState \<and>
   redeem exampleRedeem exampleCart exampleUser ''tx-1'' shakenState = (0, pendingState) \<and>
   \<not> isResultFor ''tx-1'' (Receive (PingMessage ''ping-1'' 3)) \<and>
   \<not> isResultFor ''tx-1'' (Elapse 10000) \<and>
   now shakenState + resultWaitTimeout \<le>
     now (run [Receive (PingMessage ''ping-1'' 3), Elapse 10000] pendingState) \<and>
   racePromise (calls (timeoutFires 0
       (run [Receive (PingMessage ''ping-1'' 3), Elapse 10000] pendingState)) 0) =
     Rejected Timeout \<and>
   resultHandlers (timeoutFires 0
       (run [Receive (PingMessage ''ping-1'' 3), Elapse 10000] pendingState)) ''tx-1'' = Some 0 \<and>
   racePromise (calls (processMessage (ResultMessage ''tx-1'' 10500 True ''late'')
       (run [IntervalFires 1] (timeoutFires 0
         (run [Receive (PingMessage ''ping-1'' 3), Elapse 10000] pendingState)))) 0) =
     Rejected Timeout \<and>
   resultHandlers (processMessage (ResultMessage ''tx-1'' 10500 True ''late'')
       (run [IntervalFires 1] (timeoutFires 0
         (run [Receive (PingMessage ''ping-1'' 3), Elapse 10000] pendingState)))) ''tx-1'' = None \<and>
   outstandingRedeems (processMessage (ResultMessage ''tx-1'' 10500 True ''late'')
       (run [IntervalFires 1] (timeoutFires 0
         (run [Receive (PingMessage ''ping-1'' 3), Elapse 10000] pendingState)))) ''tx-1'' = None"
proof -
  let ?es = "[Receive (PingMessage ''ping-1'' 3), Elapse 10000]"
  let ?st2 = "run ?es pendingState"
  let ?st4 = "run [IntervalFires 1] (timeoutFires 0 ?st2)"
  let ?late = "ResultMessage ''tx-1'' 10500 True ''late''"
  have ne: "''tx-1'' \<noteq> []" by simp
  have fresh: "outstandingRedeems shakenState ''tx-1'' = None" and n: "now shakenState = 0"
    and nc: "nextCall shakenState = 0"
    by (simp_all add: example_states)
  have al: "handlersAllocated shakenState"
    by (simp add: handlersAllocated_def example_states)
  have c0: "fst (redeem exampleRedeem exampleCart exampleUser ''tx-1'' shakenState) = 0"
    using redeem_registered(1)[OF ne fresh prod.collapse[symmetric] refl] nc by simp
  have red: "redeem exampleRedeem exampleCart exampleUser ''tx-1'' shakenState = (0, pendingState)"
    using c0 by (simp add: pendingState_def prod_eq_iff)
  have es: "\<forall>e \<in> set ?es. \<not> isResultFor ''tx-1'' e" by simp
  have es': "\<forall>e \<in> set [IntervalFires 1]. \<not> isResultFor ''tx-1'' e" by simp
  have "now (processMessage (PingMessage ''ping-1'' 3) pendingState) = now pendingState"
    by (simp add: makeMessage_def uuid_def Let_def)
  then have late: "now shakenState + resultWaitTimeout \<le> now ?st2"
    by (simp add: run_def n pendingState_facts resultWaitTimeout_def
        del: processMessage.simps)
  from timeout_rejects_and_keeps_entries[OF ne fresh al red refl es refl late refl es' refl
      refl refl, of 10500 True "''late''"]
  have "racePromise (calls (timeoutFires 0 ?st2) 0) = Rejected Timeout"
    and "resultHandlers (timeoutFires 0 ?st2) ''tx-1'' = Some 0"
    and s5: "processMessage ?late ?st4 =
      ?st4\<lparr>calls := (calls ?st4)(0 :=
              \<lparr>handlerPromise = Fulfilled ?late, racePromise = Rejected Timeout\<rparr>),
            outstandingRedeems := (outstandingRedeems ?st4)(''tx-1'' := None),
            resultHandlers := (resultHandlers ?st4)(''tx-1'' := None)\<rparr>"
    by blast+
  then show ?thesis
    using ne fresh al red es late by (simp only: s5) simp
qed

section \<open>The scenario of the specification\<close>

text \<open>
  Bind a socket, receive Hello with version 0.1.0, receive Ping, submit the redeem
  \<open>tx-1\<close>, receive its Result: the socket has accepted HelloBack with \<open>allowed\<close> true,
  Pong and the Redeem with guid \<open>tx-1\<close>, in this order, the handshake is complete, and
  the call is fulfilled with the Result.
\<close>

lemma specification_scenario:
  "handshake (run [SetSocket (Some 0), Receive (HelloMessage ''hello-1'' 0 ''0.1.0''),
       Receive (PingMessage ''ping-1'' 0),
       SubmitRedeem exampleRedeem exampleCart exampleUser ''tx-1'',
       Receive (ResultMessage ''tx-1'' 7 True ''ok'')] initialState) \<and>
   outbox (run [SetSocket (Some 0), Receive (HelloMessage ''hello-1'' 0 ''0.1.0''),
       Receive (PingMessage ''ping-1'' 0),
       SubmitRedeem exampleRedeem exampleCart exampleUser ''tx-1'',
       Receive (ResultMessage ''tx-1'' 7 True ''ok'')] initialState) =
     [HelloBackMessage \<lparr>messageType = HelloBack, guid = ''uuid'', timestamp = 0\<rparr> True,
      PongMessage \<lparr>messageType = Pong, guid = ''uuid'', timestamp = 0\<rparr>,
      RedeemMessage \<lparr>messageType = Redeem, guid = ''tx-1'', timestamp = 0\<rparr> Swarm
        ''spawn'' ''Spawn'' (JSNumber 0) [(''what'', ''duck'')] (TwitchUser ''user-7'')] \<and>
   racePromise (calls (run [SetSocket (Some 0), Receive (HelloMessage ''hello-1'' 0 ''0.1.0''),
       Receive (PingMessage ''ping-1'' 0),
       SubmitRedeem exampleRedeem exampleCart exampleUser ''tx-1'',
       Receive (ResultMessage ''tx-1'' 7 True ''ok'')] initialState) 0) =
     Fulfilled (ResultMessage ''tx-1'' 7 True ''ok'')"
  by (simp add: run_def initialState_def setSocket_def isConnected_def setInterval_def
      resendInterval_def makeMessage_def uuid_def sendMessage_def VERSION_def redeem_def
      resolve_def settleHandlerPromise_def outbox_def exampleRedeem_def exampleCart_def
      exampleUser_def Let_def)

end
